theory Spec2Isabelle
  imports Complex_Main "HOL-Library.Char_ord" "HOL-Library.List_Lexorder"
    "HOL-Library.Product_Lexorder" "HOL-Library.Multiset" "HOL-Library.Log_Nat"
begin

section \<open>The balance sheet transformer of optimizer.py\<close>

text \<open>
  A shallow embedding of \<^verbatim>\<open>FinancialDataTransformer\<close>: the validator
  (\<^verbatim>\<open>_validate_input_data\<close>), the date column parser (\<^verbatim>\<open>_parse_date_column\<close>) and
  the wide-to-long reshape with its final sort (\<^verbatim>\<open>transform_data\<close>).

  Modelling decisions.
  \<^item> A Python \<^verbatim>\<open>str\<close> is a \<open>string\<close> whose characters are code points; the model
    covers the code points below 256, where all literals of the program lie
    (the c with cedilla of the month name of March is the code point 0xE7). Comparison of strings is by code point,
    as Python compares them.
  \<^item> The input is the data frame that \<^verbatim>\<open>pd.read_csv\<close> returns: its column labels, in
    order, and its rows; a row gives the cell under each label. Reading the file,
    writing the result and logging are not modelled.
  \<^item> A cell is what \<^verbatim>\<open>read_csv\<close> leaves in a data frame: text, an integer, a float
    (a missing cell is the float NaN) or a boolean.
  \<^item> A float is a double: an infinity, NaN, or a finite one, which is the rational it
    denotes (the two zeros are one). Every operation on doubles rounds its exact
    result to the nearest double, a tie to the even mantissa, and overflows to an
    infinity. The text Python prints for a finite float is not modelled: it is a
    parameter (\<open>float_repr\<close>) of the functions that print cells.
  \<^item> A raised exception is the \<open>Inl\<close> of a sum; the first one ends the run, as the
    \<^verbatim>\<open>try\<close> block of \<^verbatim>\<open>transform_data\<close> re-raises it.
\<close>

subsection \<open>Values\<close>

datatype pyfloat = Finite rat | PosInf | NegInf | NaN

datatype cell = CStr string | CInt int | CFloat pyfloat | CBool bool

datatype error = ValueError string | TypeError | KeyError string | AttributeError

type_synonym row = "string \<Rightarrow> cell"

record dataframe =
  columns :: "string list"
  rows :: "row list"

record observation =
  Data :: string
  Ano :: int
  Mes :: int
  Mes_Nome :: string
  Tipo :: cell
  Grupo :: cell
  Categoria :: string
  Valor :: pyfloat

subsection \<open>Strings of Python\<close>

text \<open>\<^verbatim>\<open>str.isspace\<close> on one character, for the code points below 256.\<close>

definition py_isspace :: "char \<Rightarrow> bool" where
  "py_isspace c \<longleftrightarrow>
     c \<in> set [CHR 0x09, CHR 0x0A, CHR 0x0B, CHR 0x0C, CHR 0x0D,
               CHR 0x1C, CHR 0x1D, CHR 0x1E, CHR 0x1F, CHR 0x20, CHR 0x85, CHR 0xA0]"

text \<open>\<^verbatim>\<open>s.strip()\<close>: whitespace removed at both ends.\<close>

definition strip :: "string \<Rightarrow> string" where
  "strip s = rev (dropWhile py_isspace (rev (dropWhile py_isspace s)))"

text \<open>\<^verbatim>\<open>s.split(sep)\<close> for a separator of one character: never an empty list.\<close>

fun split :: "char \<Rightarrow> string \<Rightarrow> string list" where
  "split sep [] = [[]]"
| "split sep (c # cs) =
     (if c = sep then [] # split sep cs
      else (case split sep cs of
              [] \<Rightarrow> [[c]]
            | p # ps \<Rightarrow> (c # p) # ps))"

text \<open>\<^verbatim>\<open>s.replace(',', '.')\<close>: every comma becomes a period.\<close>

definition replace_comma :: "string \<Rightarrow> string" where
  "replace_comma s = map (\<lambda>c. if c = CHR '','' then CHR ''.'' else c) s"

definition isdigit_ascii :: "char \<Rightarrow> bool" where
  "isdigit_ascii c \<longleftrightarrow> c \<in> set ''0123456789''"

definition digit_val :: "char \<Rightarrow> nat" where
  "digit_val c = of_char c - 48"

definition digits_val :: "string \<Rightarrow> nat" where
  "digits_val ds = foldl (\<lambda>a c. 10 * a + digit_val c) 0 ds"

definition digit_char :: "nat \<Rightarrow> char" where
  "digit_char n = ''0123456789'' ! n"

text \<open>The decimal digits of a natural number, most significant first.\<close>

function digits_of :: "nat \<Rightarrow> string" where
  "digits_of n = (if n < 10 then [digit_char n] else digits_of (n div 10) @ [digit_char (n mod 10)])"
  by pat_completeness auto
termination
  by (relation "measure id") auto

declare digits_of.simps [simp del]

text \<open>\<^verbatim>\<open>str(i)\<close> and the \<^verbatim>\<open>{year}\<close> of an f-string, for an integer.\<close>

definition str_int :: "int \<Rightarrow> string" where
  "str_int i = (if i < 0 then CHR ''-'' # digits_of (nat (- i)) else digits_of (nat i))"

text \<open>
  \<^verbatim>\<open>{month:02d}\<close>: the sign, then the digits padded with zeros on the left to a width
  of two characters, sign included.
\<close>

definition fmt_02d :: "int \<Rightarrow> string" where
  "fmt_02d i =
     (let sign = (if i < 0 then ''-'' else []);
          ds = digits_of (nat \<bar>i\<bar>)
      in sign @ replicate (2 - (length sign + length ds)) CHR ''0'' @ ds)"

subsection \<open>\<^verbatim>\<open>int(s)\<close>\<close>

text \<open>
  \<^verbatim>\<open>int(s)\<close> in base 10, as CPython reads a string: a non-ASCII whitespace character
  counts as a space; then whitespace of C (tab to carriage return, and space) is
  skipped, a sign may follow, then digits with single underscores between them, then
  whitespace to the end. More than 4300 digits are refused (the default of
  \<^verbatim>\<open>sys.get_int_max_str_digits()\<close>). Anything else raises \<^verbatim>\<open>ValueError\<close>.
\<close>

definition isspace_c :: "char \<Rightarrow> bool" where
  "isspace_c c \<longleftrightarrow> c \<in> set [CHR 0x09, CHR 0x0A, CHR 0x0B, CHR 0x0C, CHR 0x0D, CHR 0x20]"

definition space_to_ascii :: "char \<Rightarrow> char" where
  "space_to_ascii c = (if c = CHR 0x85 \<or> c = CHR 0xA0 then CHR 0x20 else c)"

definition take_sign :: "string \<Rightarrow> bool \<times> string" where
  "take_sign s =
     (case s of
        [] \<Rightarrow> (False, [])
      | c # cs \<Rightarrow>
          if c = CHR ''-'' then (True, cs)
          else if c = CHR ''+'' then (False, cs)
          else (False, s))"

text \<open>
  Digits with underscores: \<open>Some\<close> of the digits when the text is a digit followed by
  digits, each with at most one underscore before it.
\<close>

fun underscored :: "string \<Rightarrow> string option" where
  "underscored [] = Some []"
| "underscored (c # cs) =
     (if isdigit_ascii c then map_option ((#) c) (underscored cs)
      else if c = CHR ''_'' then
        (case cs of
           [] \<Rightarrow> None
         | d # ds \<Rightarrow> if isdigit_ascii d then map_option ((#) d) (underscored ds) else None)
      else None)"

definition int_error :: error where
  "int_error = ValueError ''invalid literal for int() with base 10''"

definition py_int :: "string \<Rightarrow> error + int" where
  "py_int s =
     (let p = dropWhile isspace_c (map space_to_ascii s);
          (neg, p) = take_sign p;
          body = rev (dropWhile isspace_c (rev p))
      in case body of
           [] \<Rightarrow> Inl int_error
         | c # cs \<Rightarrow>
             if \<not> isdigit_ascii c then Inl int_error
             else (case underscored body of
                     None \<Rightarrow> Inl int_error
                   | Some ds \<Rightarrow>
                       if 4300 < length ds then Inl int_error
                       else Inr (if neg then - int (digits_val ds) else int (digits_val ds))))"

subsection \<open>Doubles\<close>

text \<open>
  A float of Python, of numpy and of C is an IEEE 754 double: a finite one is
  \<open>m * 2 ^ e\<close> for an integer \<open>m\<close> of at most 53 bits and \<open>e\<close> from -1074 to 971. The
  result of an operation is the exact result rounded to the nearest double, a tie to
  the even \<open>m\<close>; a result that rounds to \<open>2 ^ 1024\<close> or beyond is an infinity.

  \<open>round_half_even\<close> rounds a rational to the nearest integer, a tie to the even one;
  \<open>ilog2 a\<close> is the integer \<open>k\<close> with \<open>2 ^ k \<le> a < 2 ^ (k + 1)\<close>, for a positive
  \<open>a\<close>; \<open>dexp a\<close> is the exponent of the doubles around \<open>a\<close> (the subnormal ones have
  -1074) and \<open>dman a\<close> the mantissa of the nearest one; \<open>dbl q\<close> is the rounding of
  \<open>q\<close> with no bound on the exponent, and \<open>to_float q\<close> the double an operation whose
  exact result is \<open>q\<close> returns.
\<close>

definition round_half_even :: "rat \<Rightarrow> int" where
  "round_half_even q =
     (let f = \<lfloor>q\<rfloor>; d = q - of_int f
      in if d < 1 / 2 then f else if 1 / 2 < d then f + 1 else if even f then f else f + 1)"

definition ilog2 :: "rat \<Rightarrow> int" where
  "ilog2 a = (if 1 \<le> a then bitlen \<lfloor>a\<rfloor> - 1 else - bitlen (\<lceil>1 / a\<rceil> - 1))"

definition dexp :: "rat \<Rightarrow> int" where
  "dexp a = max (ilog2 a - 52) (- 1074)"

definition dman :: "rat \<Rightarrow> int" where
  "dman a = round_half_even (a / 2 powi dexp a)"

definition dbl :: "rat \<Rightarrow> rat" where
  "dbl q =
     (if q = 0 then 0
      else (let a = \<bar>q\<bar>; v = of_int (dman a) * 2 powi dexp a in if q < 0 then - v else v))"

definition to_float :: "rat \<Rightarrow> pyfloat" where
  "to_float q =
     (let v = dbl q
      in if 2 ^ 1024 \<le> v then PosInf else if v \<le> - (2 ^ 1024) then NegInf else Finite v)"

subsection \<open>\<^verbatim>\<open>pd.to_numeric(s, errors='coerce')\<close> on a string\<close>

text \<open>
  pandas reads the text as a C string (it ends at the first NUL) with its own
  \<^verbatim>\<open>precise_xstrtod\<close>: whitespace of C, a sign, digits, a period and digits (one
  digit at least, before or after the period), an exponent (\<^verbatim>\<open>e\<close> or \<^verbatim>\<open>E\<close>, a
  sign, one to seventeen digits), whitespace of C, and the end of the text.

  The number is accumulated in a double from the first seventeen digits, each step a
  product and a sum, each of them rounded (\<open>accumulate\<close>); a further digit of the
  integer part adds one to the decimal exponent and a further digit of the fraction is
  dropped. The exponent
  is a C \<^verbatim>\<open>int\<close>, here of 32 bits that wrap (\<open>wrap32\<close>). At the end the number is
  multiplied or divided by a power of ten from a table of doubles (\<open>e10\<close>), in two
  steps below \<open>10 ^ -308\<close> (\<open>scale\<close>).

  The result of \<open>xstrtod\<close> is whether the text may be an integer (no period, no
  exponent) and the double read; \<open>None\<close> is a failed parse.
\<close>

definition c_string :: "string \<Rightarrow> string" where
  "c_string s = takeWhile (\<lambda>c. c \<noteq> CHR 0x00) s"

definition e10 :: "nat \<Rightarrow> rat" where
  "e10 k = dbl (10 ^ k)"

definition wrap32 :: "int \<Rightarrow> int" where
  "wrap32 i = (i + 2 ^ 31) mod 2 ^ 32 - 2 ^ 31"

definition accumulate :: "rat \<Rightarrow> string \<Rightarrow> rat" where
  "accumulate number ds = foldl (\<lambda>a c. dbl (dbl (a * 10) + of_nat (digit_val c))) number ds"

definition fraction_part :: "string \<Rightarrow> bool \<times> string \<times> string" where
  "fraction_part p =
     (case p of
        [] \<Rightarrow> (False, [], [])
      | c # cs \<Rightarrow>
          if c = CHR ''.'' then (True, takeWhile isdigit_ascii cs, dropWhile isdigit_ascii cs)
          else (False, [], p))"

text \<open>
  The exponent part: whether there is one, its number with its sign, and the rest of
  the text. Without a digit after the letter, and with more than seventeen, text is
  left over and the parse fails.
\<close>

definition exponent_part :: "string \<Rightarrow> bool \<times> int \<times> string" where
  "exponent_part p =
     (case p of
        [] \<Rightarrow> (False, 0, [])
      | c # cs \<Rightarrow>
          if c = CHR ''e'' \<or> c = CHR ''E'' then
            (let (eneg, q) = take_sign cs;
                 ed = takeWhile isdigit_ascii q;
                 n = foldl (\<lambda>a c. wrap32 (a * 10 + int (digit_val c))) 0 ed
             in if ed = [] \<or> 17 < length ed then (False, 0, p)
                else (True, (if eneg then - n else n), dropWhile isdigit_ascii q))
          else (False, 0, p))"

text \<open>
  The last step of the parser, on the number accumulated and the decimal exponent: the
  error flag (\<^verbatim>\<open>ERANGE\<close>) and the double. The flag is set when the exponent exceeds
  308, and when the double the step computes is an infinity.
\<close>

definition scale :: "rat \<Rightarrow> int \<Rightarrow> bool \<times> pyfloat" where
  "scale number exponent =
     (if 308 < exponent then (True, PosInf)
      else
        (let x = (if 0 < exponent then to_float (number * e10 (nat exponent))
                  else if exponent < - 308 then
                    (if exponent < - 616 then Finite 0
                     else to_float (dbl (number / e10 (nat (- 308 - exponent))) / e10 308))
                  else to_float (number / e10 (nat (- exponent))))
         in (x = PosInf \<or> x = NegInf, x)))"

text \<open>
  The parse succeeds (\<^verbatim>\<open>to_double\<close>) when the error flag is not set and no text is
  left over.
\<close>

definition xstrtod :: "string \<Rightarrow> (bool \<times> pyfloat) option" where
  "xstrtod s =
     (let p = dropWhile isspace_c s;
          (neg, p) = take_sign p;
          ip = takeWhile isdigit_ascii p;
          p = dropWhile isdigit_ascii p;
          (dot, fp, p) = fraction_part p;
          iu = take 17 ip;
          fu = take (17 - length iu) fp;
          number = accumulate (accumulate 0 iu) fu;
          exponent = int (length ip) - int (length iu) - int (length fu)
      in if ip = [] \<and> fp = [] then None
         else
           (let (ex, n, p) = exponent_part p;
                (erange, x) = scale (if neg then - number else number) (wrap32 (exponent + n));
                p = dropWhile isspace_c p
            in if erange \<or> p \<noteq> [] then None else Some (\<not> dot \<and> \<not> ex, x)))"

definition lower_ascii :: "char \<Rightarrow> char" where
  "lower_ascii c =
     (if (65::nat) \<le> of_char c \<and> of_char c \<le> (90::nat) then char_of (of_char c + (32::nat)) else c)"

text \<open>
  \<^verbatim>\<open>maybe_convert_numeric\<close> with \<^verbatim>\<open>coerce_numeric\<close>: the empty text is NaN; a text
  that may be an integer is read again by \<^verbatim>\<open>int\<close>, and the integer is kept when it
  is in the range of \<^verbatim>\<open>int64\<close> and \<^verbatim>\<open>uint64\<close> (the \<^verbatim>\<open>float(value)\<close> of the loop
  body then rounds it to a double), the double of the parser otherwise; a text that
  is no number is an infinity when it spells one, whatever the case of its letters,
  and NaN otherwise.
\<close>

definition to_numeric :: "string \<Rightarrow> pyfloat" where
  "to_numeric s =
     (if s = [] then NaN
      else
        (let d = c_string s in
         case xstrtod d of
           Some (maybe_int, x) \<Rightarrow>
             if maybe_int then
               (case py_int s of
                  Inl e \<Rightarrow> NaN
                | Inr i \<Rightarrow> if - (2 ^ 63) \<le> i \<and> i < 2 ^ 64 then to_float (of_int i) else x)
             else x
         | None \<Rightarrow>
             (let w = map lower_ascii d in
              if w \<in> set [''inf'', ''+inf'', ''infinity'', ''+infinity''] then PosInf
              else if w \<in> set [''-inf'', ''-infinity''] then NegInf
              else NaN)))"

text \<open>\<^verbatim>\<open>pd.notnull\<close> on the number \<^verbatim>\<open>to_numeric\<close> returns.\<close>

definition notnull :: "pyfloat \<Rightarrow> bool" where
  "notnull x \<longleftrightarrow> x \<noteq> NaN"

text \<open>
  \<^verbatim>\<open>round(x, 2)\<close>: the double nearest to the multiple of 0.01 that is nearest to the
  exact value of \<open>x\<close>, a tie to the even multiple; the infinities round to
  themselves. Python raises \<^verbatim>\<open>OverflowError\<close> where the result would be an infinity:
  by \<open>py_round2_Finite\<close> below no double rounds to one.
\<close>

definition py_round2 :: "pyfloat \<Rightarrow> pyfloat" where
  "py_round2 x =
     (case x of Finite q \<Rightarrow> to_float (of_int (round_half_even (q * 100)) / 100) | _ \<Rightarrow> x)"

text \<open>\<^verbatim>\<open>str(cell)\<close>; the text of a finite float is the parameter.\<close>

definition py_str :: "(rat \<Rightarrow> string) \<Rightarrow> cell \<Rightarrow> string" where
  "py_str float_repr c =
     (case c of
        CStr s \<Rightarrow> s
      | CInt i \<Rightarrow> str_int i
      | CBool b \<Rightarrow> (if b then ''True'' else ''False'')
      | CFloat x \<Rightarrow>
          (case x of
             Finite q \<Rightarrow> float_repr q
           | PosInf \<Rightarrow> ''inf''
           | NegInf \<Rightarrow> ''-inf''
           | NaN \<Rightarrow> ''nan''))"

subsection \<open>The transformer\<close>

definition month_map :: "string \<rightharpoonup> int" where
  "month_map = map_of
     [(''Jan'', 1), (''Fev'', 2), (''Mar'', 3), (''Abr'', 4), (''Mai'', 5), (''Jun'', 6),
      (''Jul'', 7), (''Ago'', 8), (''Set'', 9), (''Out'', 10), (''Nov'', 11), (''Dez'', 12)]"

definition month_names :: "int \<rightharpoonup> string" where
  "month_names = map_of
     [(1, ''Janeiro''), (2, ''Fevereiro''), (3, ''Mar'' @ [CHR 0xE7] @ ''o''), (4, ''Abril''),
      (5, ''Maio''), (6, ''Junho''), (7, ''Julho''), (8, ''Agosto''),
      (9, ''Setembro''), (10, ''Outubro''), (11, ''Novembro''), (12, ''Dezembro'')]"

definition required_columns :: "string list" where
  "required_columns = [''Tipo'', ''Grupo'', ''Categoria'']"

definition missing_columns :: "dataframe \<Rightarrow> string list" where
  "missing_columns df = filter (\<lambda>col. col \<notin> set (columns df)) required_columns"

definition date_columns :: "dataframe \<Rightarrow> string list" where
  "date_columns df = filter (\<lambda>col. CHR ''/'' \<in> set col \<and> col \<noteq> ''Total'') (columns df)"

text \<open>
  The text of a list of strings in an f-string. The quoting is that of a string
  without quotes, backslashes or control characters, which the three required names
  are; the function is applied to nothing else.
\<close>

definition repr_str :: "string \<Rightarrow> string" where
  "repr_str s = [CHR 0x27] @ s @ [CHR 0x27]"

fun join_comma :: "string list \<Rightarrow> string" where
  "join_comma [] = []"
| "join_comma [s] = s"
| "join_comma (s # t # ts) = s @ '', '' @ join_comma (t # ts)"

definition repr_list :: "string list \<Rightarrow> string" where
  "repr_list xs = ''['' @ join_comma (map repr_str xs) @ '']''"

definition no_date_columns_message :: string where
  "no_date_columns_message =
     ''No date columns found in the format '' @ [CHR 0x27] @ ''MMM/YY'' @ [CHR 0x27]"

definition validate_input_data :: "dataframe \<Rightarrow> error + bool" where
  "validate_input_data df =
     (if missing_columns df \<noteq> [] then
        Inl (ValueError (''Missing required columns: '' @ repr_list (missing_columns df)))
      else if date_columns df = [] then Inl (ValueError no_date_columns_message)
      else Inr True)"

text \<open>
  \<^verbatim>\<open>_parse_date_column\<close>. Unpacking the parts into two names raises unless there are
  two of them; \<^verbatim>\<open>dict.get\<close> gives \<^verbatim>\<open>None\<close> for a month it does not know.
\<close>

definition parse_date_column :: "string \<Rightarrow> error + (int option \<times> int)" where
  "parse_date_column col_name =
     (case split CHR ''/'' (strip col_name) of
        [month_str, year_str] \<Rightarrow>
          (let month = month_map (strip month_str)
           in case py_int year_str of
                Inl e \<Rightarrow> Inl e
              | Inr y \<Rightarrow> Inr (month, 2000 + y))
      | _ # _ # _ # _ \<Rightarrow> Inl (ValueError ''too many values to unpack (expected 2)'')
      | _ \<Rightarrow> Inl (ValueError ''not enough values to unpack (expected 2, got 1)''))"

text \<open>The \<^verbatim>\<open>date_str\<close> of the loop body: \<^verbatim>\<open>f"{year}-{month:02d}-01"\<close>.\<close>

definition date_str :: "int \<Rightarrow> int \<Rightarrow> string" where
  "date_str year month = str_int year @ ''-'' @ fmt_02d month @ ''-01''"

text \<open>The \<^verbatim>\<open>Valor\<close> of the loop body, from the cell.\<close>

definition valor :: "(rat \<Rightarrow> string) \<Rightarrow> cell \<Rightarrow> pyfloat" where
  "valor float_repr c =
     (let v = to_numeric (replace_comma (py_str float_repr c))
      in if notnull v then py_round2 v else Finite 0)"

text \<open>
  The body of the inner loop, for one row and one date column. Formatting the month
  \<^verbatim>\<open>None\<close> with \<^verbatim>\<open>02d\<close> raises \<^verbatim>\<open>TypeError\<close>; \<^verbatim>\<open>.strip()\<close> on a cell that is no
  string raises \<^verbatim>\<open>AttributeError\<close>.
\<close>

definition make_observation :: "(rat \<Rightarrow> string) \<Rightarrow> row \<Rightarrow> string \<Rightarrow> error + observation" where
  "make_observation float_repr r date_col =
     (case parse_date_column date_col of
        Inl e \<Rightarrow> Inl e
      | Inr (month, year) \<Rightarrow>
          (case month of
             None \<Rightarrow> Inl TypeError
           | Some m \<Rightarrow>
               (case month_names m of
                  None \<Rightarrow> Inl (KeyError (str_int m))
                | Some name \<Rightarrow>
                    (case r ''Categoria'' of
                       CStr c \<Rightarrow>
                         Inr \<lparr>Data = date_str year m, Ano = year, Mes = m, Mes_Nome = name,
                              Tipo = r ''Tipo'', Grupo = r ''Grupo'', Categoria = strip c,
                              Valor = valor float_repr (r date_col)\<rparr>
                     | _ \<Rightarrow> Inl AttributeError))))"

text \<open>The inner loop over the date columns, and the outer loop over the rows.\<close>

fun row_observations :: "(rat \<Rightarrow> string) \<Rightarrow> row \<Rightarrow> string list \<Rightarrow> error + observation list" where
  "row_observations float_repr r [] = Inr []"
| "row_observations float_repr r (c # cs) =
     (case make_observation float_repr r c of
        Inl e \<Rightarrow> Inl e
      | Inr ob \<Rightarrow>
          (case row_observations float_repr r cs of
             Inl e \<Rightarrow> Inl e
           | Inr obs \<Rightarrow> Inr (ob # obs)))"

fun reshape :: "(rat \<Rightarrow> string) \<Rightarrow> string list \<Rightarrow> row list \<Rightarrow> error + observation list" where
  "reshape float_repr cols [] = Inr []"
| "reshape float_repr cols (r # rs) =
     (case row_observations float_repr r cols of
        Inl e \<Rightarrow> Inl e
      | Inr obs \<Rightarrow>
          (case reshape float_repr cols rs of
             Inl e \<Rightarrow> Inl e
           | Inr rest \<Rightarrow> Inr (obs @ rest)))"

text \<open>
  \<^verbatim>\<open>sort_values(['Data', 'Tipo', 'Grupo', 'Categoria'])\<close>. A data frame built from no
  record has no column, so the sort raises \<^verbatim>\<open>KeyError\<close>. Otherwise the sort is
  stable and compares the four columns in turn; within a column pandas puts numbers
  first (by value, a boolean as 0 or 1), then strings, then the missing values.
\<close>

definition float_key :: "pyfloat \<Rightarrow> int \<times> rat" where
  "float_key x = (case x of Finite q \<Rightarrow> (0, q) | PosInf \<Rightarrow> (1, 0) | NegInf \<Rightarrow> (- 1, 0) | NaN \<Rightarrow> (0, 0))"

definition cell_key :: "cell \<Rightarrow> nat \<times> (int \<times> rat) \<times> string" where
  "cell_key c =
     (case c of
        CInt i \<Rightarrow> (0, (0, of_int i), [])
      | CBool b \<Rightarrow> (0, (0, if b then 1 else 0), [])
      | CFloat x \<Rightarrow> (if x = NaN then (2, (0, 0), []) else (0, float_key x, []))
      | CStr s \<Rightarrow> (1, (0, 0), s))"

definition by_key ::
  "observation \<Rightarrow> string \<times> (nat \<times> (int \<times> rat) \<times> string) \<times> (nat \<times> (int \<times> rat) \<times> string) \<times> string" where
  "by_key ob = (Data ob, cell_key (Tipo ob), cell_key (Grupo ob), Categoria ob)"

definition sort_values :: "observation list \<Rightarrow> error + observation list" where
  "sort_values obs = (if obs = [] then Inl (KeyError ''Data'') else Inr (sort_key by_key obs))"

text \<open>\<^verbatim>\<open>transform_data\<close>, from the data frame read to the data frame returned.\<close>

definition transform_data :: "(rat \<Rightarrow> string) \<Rightarrow> dataframe \<Rightarrow> error + observation list" where
  "transform_data float_repr df =
     (case validate_input_data df of
        Inl e \<Rightarrow> Inl e
      | Inr ok \<Rightarrow>
          (case reshape float_repr (date_columns df) (rows df) of
             Inl e \<Rightarrow> Inl e
           | Inr transformed_data \<Rightarrow> sort_values transformed_data))"

subsection \<open>Conditions on the input, and example tables\<close>

text \<open>
  A date column whose header the parser reads as a known month and a year, and a cell
  that is a string.
\<close>

definition header_ok :: "string \<Rightarrow> bool" where
  "header_ok c = (case parse_date_column c of Inr (Some m, y) \<Rightarrow> True | _ \<Rightarrow> False)"

definition is_str :: "cell \<Rightarrow> bool" where
  "is_str c = (case c of CStr s \<Rightarrow> True | _ \<Rightarrow> False)"

text \<open>
  A row from its three identifying cells and the cells of its other columns; a column
  without a cell is missing (NaN).
\<close>

definition mk_row :: "cell \<Rightarrow> cell \<Rightarrow> cell \<Rightarrow> (string \<times> cell) list \<Rightarrow> row" where
  "mk_row t g c others =
     (\<lambda>col. if col = ''Tipo'' then t else if col = ''Grupo'' then g
            else if col = ''Categoria'' then c
            else (case map_of others col of Some v \<Rightarrow> v | None \<Rightarrow> CFloat NaN))"

text \<open>
  The scenario of the specification: one row, the cell of January the text
  \<^verbatim>\<open>1.500,00\<close>; the cell of February is the parameter (\<^verbatim>\<open>read_csv\<close> makes the
  integer 2000 of the text \<^verbatim>\<open>2000\<close>).
\<close>

definition scenario :: "cell \<Rightarrow> dataframe" where
  "scenario fev =
     \<lparr>columns = [''Tipo'', ''Grupo'', ''Categoria'', ''Jan/24'', ''Fev/24''],
      rows = [mk_row (CStr ''Entrada'') (CStr ''Vendas'') (CStr '' Produtos '')
                [(''Jan/24'', CStr ''1.500,00''), (''Fev/24'', fev)]]\<rparr>"

text \<open>A table of one date column and one row, from the category and the cell.\<close>

definition one_cell :: "string \<Rightarrow> cell \<Rightarrow> cell \<Rightarrow> dataframe" where
  "one_cell header cat c =
     \<lparr>columns = [''Tipo'', ''Grupo'', ''Categoria'', header],
      rows = [mk_row (CStr ''Entrada'') (CStr ''Vendas'') cat [(header, c)]]\<rparr>"

section \<open>Properties\<close>

subsection \<open>The loops\<close>

lemma month_map_range: "month_map s = Some m \<Longrightarrow> 1 \<le> m \<and> m \<le> 12"
  by (auto simp: month_map_def split: if_splits)

lemma month_names_defined: "1 \<le> m \<Longrightarrow> m \<le> 12 \<Longrightarrow> \<exists>n. month_names m = Some n"
proof -
  assume "1 \<le> m" "m \<le> 12"
  then have "m = 1 \<or> m = 2 \<or> m = 3 \<or> m = 4 \<or> m = 5 \<or> m = 6 \<or> m = 7 \<or> m = 8 \<or> m = 9
      \<or> m = 10 \<or> m = 11 \<or> m = 12" by arith
  then show ?thesis by (auto simp: month_names_def)
qed

lemma parse_date_column_month:
  "parse_date_column c = Inr (Some m, y) \<Longrightarrow> 1 \<le> m \<and> m \<le> 12"
  by (auto simp: parse_date_column_def Let_def month_map_range split: list.splits sum.splits)

lemma make_observation_ok:
  assumes "header_ok c" and "is_str (r ''Categoria'')"
  shows "\<exists>ob. make_observation fr r c = Inr ob"
proof -
  from assms(1) obtain m y where p: "parse_date_column c = Inr (Some m, y)"
    by (auto simp: header_ok_def split: sum.splits option.splits prod.splits)
  from parse_date_column_month [OF p] obtain n where "month_names m = Some n"
    using month_names_defined by blast
  moreover from assms(2) obtain s where "r ''Categoria'' = CStr s"
    by (auto simp: is_str_def split: cell.splits)
  ultimately show ?thesis using p by (simp add: make_observation_def)
qed

lemma make_observation_header: "make_observation fr r c = Inr ob \<Longrightarrow> header_ok c"
  by (auto simp: make_observation_def header_ok_def split: sum.splits option.splits prod.splits)

lemma make_observation_categoria: "make_observation fr r c = Inr ob \<Longrightarrow> is_str (r ''Categoria'')"
  by (auto simp: make_observation_def is_str_def split: sum.splits option.splits prod.splits cell.splits)

lemma make_observation_not_str:
  assumes "header_ok c" and "\<not> is_str (r ''Categoria'')"
  shows "make_observation fr r c = Inl AttributeError"
proof -
  from assms(1) obtain m y where p: "parse_date_column c = Inr (Some m, y)"
    by (auto simp: header_ok_def split: sum.splits option.splits prod.splits)
  from parse_date_column_month [OF p] obtain n where "month_names m = Some n"
    using month_names_defined by blast
  then show ?thesis using p assms(2) by (simp add: make_observation_def is_str_def split: cell.splits)
qed

lemma row_observations_map:
  "row_observations fr r cs = Inr obs \<Longrightarrow> map (make_observation fr r) cs = map Inr obs"
  by (induction cs arbitrary: obs) (auto split: sum.splits)

lemma row_observations_length: "row_observations fr r cs = Inr obs \<Longrightarrow> length obs = length cs"
  using row_observations_map [of fr r cs obs] by (metis length_map)

lemma reshape_concat:
  "reshape fr cols rs = Inr obs \<Longrightarrow>
     concat (map (\<lambda>r. map (make_observation fr r) cols) rs) = map Inr obs"
  by (induction rs arbitrary: obs) (auto split: sum.splits simp: row_observations_map)

lemma reshape_length: "reshape fr cols rs = Inr obs \<Longrightarrow> length obs = length rs * length cols"
  by (induction rs arbitrary: obs) (auto split: sum.splits simp: row_observations_length)

lemma row_observations_ok:
  "list_all header_ok cs \<Longrightarrow> is_str (r ''Categoria'') \<Longrightarrow> \<exists>obs. row_observations fr r cs = Inr obs"
proof (induction cs)
  case Nil
  then show ?case by simp
next
  case (Cons c cs)
  then obtain ob where "make_observation fr r c = Inr ob" using make_observation_ok by fastforce
  moreover from Cons obtain obs where "row_observations fr r cs = Inr obs" by auto
  ultimately show ?case by simp
qed

lemma reshape_ok:
  "list_all header_ok cols \<Longrightarrow> list_all (\<lambda>r. is_str (r ''Categoria'')) rs \<Longrightarrow>
     \<exists>obs. reshape fr cols rs = Inr obs"
proof (induction rs)
  case Nil
  then show ?case by simp
next
  case (Cons r rs)
  then obtain obs where "row_observations fr r cols = Inr obs" using row_observations_ok by fastforce
  moreover from Cons obtain rest where "reshape fr cols rs = Inr rest" by auto
  ultimately show ?case by simp
qed

lemma row_observations_header:
  "row_observations fr r cs = Inr obs \<Longrightarrow> list_all header_ok cs"
  by (induction cs arbitrary: obs) (auto split: sum.splits simp: make_observation_header)

lemma row_observations_categoria:
  "row_observations fr r cs = Inr obs \<Longrightarrow> cs \<noteq> [] \<Longrightarrow> is_str (r ''Categoria'')"
  by (cases cs) (auto split: sum.splits simp: make_observation_categoria)

lemma reshape_header:
  "reshape fr cols rs = Inr obs \<Longrightarrow> rs \<noteq> [] \<Longrightarrow> list_all header_ok cols"
  by (cases rs) (auto split: sum.splits simp: row_observations_header)

lemma reshape_categoria:
  "reshape fr cols rs = Inr obs \<Longrightarrow> cols \<noteq> [] \<Longrightarrow> list_all (\<lambda>r. is_str (r ''Categoria'')) rs"
  by (induction rs arbitrary: obs) (auto split: sum.splits simp: row_observations_categoria)

lemma row_observations_not_str:
  "list_all header_ok cs \<Longrightarrow> cs \<noteq> [] \<Longrightarrow> \<not> is_str (r ''Categoria'') \<Longrightarrow>
     row_observations fr r cs = Inl AttributeError"
  by (cases cs) (auto simp: make_observation_not_str)

lemma reshape_not_str:
  "list_all header_ok cols \<Longrightarrow> cols \<noteq> [] \<Longrightarrow> \<not> list_all (\<lambda>r. is_str (r ''Categoria'')) rs \<Longrightarrow>
     reshape fr cols rs = Inl AttributeError"
proof (induction rs)
  case Nil
  then show ?case by simp
next
  case (Cons r rs)
  show ?case
  proof (cases "is_str (r ''Categoria'')")
    case True
    then obtain obs where "row_observations fr r cols = Inr obs"
      using row_observations_ok Cons.prems(1) by blast
    moreover from True Cons have "reshape fr cols rs = Inl AttributeError" by simp
    ultimately show ?thesis by simp
  next
    case False
    then show ?thesis using row_observations_not_str Cons.prems by simp
  qed
qed

lemma validate_date_columns: "validate_input_data df = Inr b \<Longrightarrow> date_columns df \<noteq> []"
  by (auto simp: validate_input_data_def split: if_splits)

lemma transform_data_succeeds_iff:
  "(\<exists>out. transform_data fr df = Inr out) \<longleftrightarrow>
     validate_input_data df = Inr True \<and> rows df \<noteq> [] \<and> list_all header_ok (date_columns df) \<and>
     list_all (\<lambda>r. is_str (r ''Categoria'')) (rows df)"
  (is "?L \<longleftrightarrow> ?R")
proof
  assume ?L
  then obtain out where out: "transform_data fr df = Inr out" ..
  then have v: "validate_input_data df = Inr True"
    by (auto simp: transform_data_def validate_input_data_def split: sum.splits if_splits)
  with out obtain obs where r: "reshape fr (date_columns df) (rows df) = Inr obs"
    and s: "sort_values obs = Inr out"
    by (auto simp: transform_data_def split: sum.splits)
  from s have "obs \<noteq> []" by (auto simp: sort_values_def split: if_splits)
  with r have ne: "rows df \<noteq> []" by (cases "rows df") auto
  from v have "date_columns df \<noteq> []" by (rule validate_date_columns)
  with r ne v show ?R by (auto simp: reshape_header reshape_categoria)
next
  assume R: ?R
  then obtain obs where r: "reshape fr (date_columns df) (rows df) = Inr obs"
    using reshape_ok by blast
  from R have "date_columns df \<noteq> []" using validate_date_columns by blast
  with R have "length (rows df) * length (date_columns df) \<noteq> 0" by simp
  with r have "obs \<noteq> []" using reshape_length by fastforce
  with r R show ?L by (simp add: transform_data_def sort_values_def)
qed

lemma transform_data_reshape:
  "transform_data fr df = Inr out \<Longrightarrow>
     \<exists>obs. reshape fr (date_columns df) (rows df) = Inr obs \<and> out = sort_key by_key obs"
  by (auto simp: transform_data_def sort_values_def split: sum.splits if_splits)

subsection \<open>Rounding to a double\<close>

text \<open>
  The rounding is exact on the integers of at most 53 bits; it stays below
  \<open>2 ^ 1024\<close> on the rationals below \<open>2 ^ 1024 - 2 ^ 970\<close>, and a result below
  \<open>2 ^ 1024\<close> is at most the greatest double, \<open>2 ^ 1024 - 2 ^ 971\<close>. So the
  integers of 64 bits round to finite doubles, every finite result of the parser is in
  the range of the doubles, and rounding such a number to two decimals gives a finite
  double again.
\<close>

lemma round_half_even_int [simp]: "round_half_even (of_int i) = i"
  by (simp add: round_half_even_def)

lemma round_half_even_bounds:
  "of_int (round_half_even x) \<le> x + 1 / 2" "x - 1 / 2 \<le> of_int (round_half_even x)"
proof -
  have f: "of_int \<lfloor>x\<rfloor> \<le> x" "x < of_int \<lfloor>x\<rfloor> + 1"
    by linarith+
  consider "x - of_int \<lfloor>x\<rfloor> < 1 / 2" | "1 / 2 < x - of_int \<lfloor>x\<rfloor>"
    | "x - of_int \<lfloor>x\<rfloor> = 1 / 2"
    by linarith
  then have "of_int (round_half_even x) \<le> x + 1 / 2 \<and> x - 1 / 2 \<le> of_int (round_half_even x)"
  proof cases
    case 1
    then have "round_half_even x = \<lfloor>x\<rfloor>" by (simp add: round_half_even_def Let_def)
    then have "of_int (round_half_even x) = (of_int \<lfloor>x\<rfloor> :: rat)" by simp
    with f 1 show ?thesis by linarith
  next
    case 2
    then have "round_half_even x = \<lfloor>x\<rfloor> + 1" by (simp add: round_half_even_def Let_def)
    then have "of_int (round_half_even x) = (of_int \<lfloor>x\<rfloor> :: rat) + 1" by simp
    with f 2 show ?thesis by linarith
  next
    case 3
    then have "round_half_even x = \<lfloor>x\<rfloor> \<or> round_half_even x = \<lfloor>x\<rfloor> + 1"
      by (simp add: round_half_even_def Let_def)
    then have "of_int (round_half_even x) = (of_int \<lfloor>x\<rfloor> :: rat)
        \<or> of_int (round_half_even x) = (of_int \<lfloor>x\<rfloor> :: rat) + 1"
      by auto
    with f 3 show ?thesis by linarith
  qed
  then show "of_int (round_half_even x) \<le> x + 1 / 2" "x - 1 / 2 \<le> of_int (round_half_even x)"
    by simp_all
qed

lemma ilog2_bounds:
  assumes "0 < a"
  shows "2 powi ilog2 a \<le> a" and "a < 2 powi (ilog2 a + 1)"
proof -
  show "2 powi ilog2 a \<le> a"
  proof (cases "1 \<le> a")
    case True
    then have p: "0 < \<lfloor>a\<rfloor>" by simp
    from bitlen_bounds [OF p] have "2 ^ nat (bitlen \<lfloor>a\<rfloor> - 1) \<le> \<lfloor>a\<rfloor>" ..
    then have "(of_int (2 ^ nat (bitlen \<lfloor>a\<rfloor> - 1)) :: rat) \<le> of_int \<lfloor>a\<rfloor>"
      by (simp only: of_int_le_iff)
    also have "\<dots> \<le> a" by simp
    finally have "(2 :: rat) ^ nat (bitlen \<lfloor>a\<rfloor> - 1) \<le> a" by simp
    moreover from p have "1 \<le> bitlen \<lfloor>a\<rfloor>"
      using bitlen_eq_zero_iff [of "\<lfloor>a\<rfloor>"] bitlen_nonneg [of "\<lfloor>a\<rfloor>"] by linarith
    ultimately show ?thesis
      using True by (simp add: ilog2_def power_int_def)
  next
    case False
    let ?c = "\<lceil>1 / a\<rceil>"
    let ?j = "bitlen (?c - 1)"
    from False assms have x: "1 < 1 / a" by simp
    then have c: "0 < ?c - 1" by linarith
    from bitlen_bounds [OF c] have "?c - 1 < 2 ^ nat ?j" ..
    then have "?c \<le> 2 ^ nat ?j" by simp
    then have "(of_int ?c :: rat) \<le> of_int (2 ^ nat ?j)"
      by (simp only: of_int_le_iff)
    moreover have "1 / a \<le> of_int ?c"
      by (rule le_of_int_ceiling)
    moreover have "(of_int (2 ^ nat ?j) :: rat) = 2 ^ nat ?j"
      by simp
    ultimately have "1 / a \<le> 2 ^ nat ?j"
      by linarith
    then have "1 \<le> a * 2 ^ nat ?j"
      using assms by (simp add: field_simps)
    then have "1 / 2 ^ nat ?j \<le> a"
      by (simp add: field_simps)
    moreover have "1 \<le> ?j"
      using c bitlen_eq_zero_iff [of "?c - 1"] bitlen_nonneg [of "?c - 1"] by linarith
    ultimately show ?thesis
      using False by (simp add: ilog2_def power_int_def inverse_eq_divide power_one_over)
  qed
  show "a < 2 powi (ilog2 a + 1)"
  proof (cases "1 \<le> a")
    case True
    then have p: "0 < \<lfloor>a\<rfloor>" by simp
    from bitlen_bounds [OF p] have "\<lfloor>a\<rfloor> < 2 ^ nat (bitlen \<lfloor>a\<rfloor>)" ..
    then have "\<lfloor>a\<rfloor> + 1 \<le> 2 ^ nat (bitlen \<lfloor>a\<rfloor>)" by simp
    then have "(of_int (\<lfloor>a\<rfloor> + 1) :: rat) \<le> of_int (2 ^ nat (bitlen \<lfloor>a\<rfloor>))"
      by (simp only: of_int_le_iff)
    moreover have "a < of_int (\<lfloor>a\<rfloor> + 1)" by simp linarith
    ultimately have "a < 2 ^ nat (bitlen \<lfloor>a\<rfloor>)" by simp
    moreover have "0 \<le> bitlen \<lfloor>a\<rfloor>" by (rule bitlen_nonneg)
    ultimately show ?thesis
      using True by (simp add: ilog2_def power_int_def)
  next
    case False
    let ?c = "\<lceil>1 / a\<rceil>"
    let ?j = "bitlen (?c - 1)"
    from False assms have x: "1 < 1 / a" by simp
    then have c: "0 < ?c - 1" by linarith
    then have j: "1 \<le> ?j"
      using bitlen_eq_zero_iff [of "?c - 1"] bitlen_nonneg [of "?c - 1"] by linarith
    from bitlen_bounds [OF c] have "2 ^ nat (?j - 1) \<le> ?c - 1" ..
    then have "(of_int (2 ^ nat (?j - 1)) :: rat) \<le> of_int (?c - 1)"
      by (simp only: of_int_le_iff)
    moreover have "of_int (?c - 1) < 1 / a"
      by simp linarith
    ultimately have "2 ^ nat (?j - 1) < 1 / a" by simp
    then have "a * 2 ^ nat (?j - 1) < 1"
      using assms by (simp add: field_simps)
    then have "a < 1 / 2 ^ nat (?j - 1)"
      by (simp add: field_simps)
    moreover have "- ?j + 1 \<le> 0" using j by simp
    moreover have "nat (- (- ?j + 1)) = nat (?j - 1)" by simp
    ultimately show ?thesis
      using False j by (simp add: ilog2_def power_int_def inverse_eq_divide power_one_over)
  qed
qed

lemma dbl_pos: "0 < a \<Longrightarrow> dbl a = of_int (dman a) * 2 powi dexp a"
  by (simp add: dbl_def dman_def dexp_def Let_def)

lemma dbl_neg: "dbl (- q) = - dbl q"
  by (simp add: dbl_def Let_def)

lemma dbl_zero [simp]: "dbl 0 = 0"
  by (simp add: dbl_def)

lemma pow2_pos: "0 < (2::rat) powi e"
  by (simp add: zero_less_power_int)

lemma pow2_less_imp:
  assumes "(2::rat) powi m < 2 powi n"
  shows "m < n"
proof (rule ccontr)
  assume "\<not> m < n"
  then have "(2::rat) powi n \<le> 2 powi m"
    by (intro power_int_increasing) simp_all
  with assms show False by simp
qed

lemma scaled_less:
  assumes "0 < a"
  shows "a / 2 powi dexp a < 2 ^ 53"
proof -
  have "ilog2 a + 1 \<le> dexp a + 53"
    by (simp add: dexp_def)
  then have "(2::rat) powi (ilog2 a + 1) \<le> 2 powi (dexp a + 53)"
    by (intro power_int_increasing) simp_all
  with ilog2_bounds(2) [OF assms] have "a < 2 powi (dexp a + 53)"
    by linarith
  also have "\<dots> = 2 powi dexp a * 2 ^ 53"
    by (simp add: power_int_add)
  finally show ?thesis
    using pow2_pos [of "dexp a"] by (simp add: field_simps)
qed

lemma dman_le:
  assumes "0 < a"
  shows "dman a \<le> 2 ^ 53" and "0 \<le> dman a"
proof -
  let ?x = "a / 2 powi dexp a"
  have "of_int (dman a) \<le> ?x + 1 / 2"
    unfolding dman_def by (rule round_half_even_bounds)
  with scaled_less [OF assms] have "(of_int (dman a) :: rat) < 2 ^ 53 + 1 / 2"
    by linarith
  then have "(of_int (dman a) :: rat) < of_int (2 ^ 53 + 1)"
    by simp
  then have "dman a < 2 ^ 53 + 1"
    by (simp only: of_int_less_iff)
  then show "dman a \<le> 2 ^ 53"
    by simp
  have "0 < ?x"
    using assms pow2_pos [of "dexp a"] by simp
  moreover have "?x - 1 / 2 \<le> of_int (dman a)"
    unfolding dman_def by (rule round_half_even_bounds)
  ultimately have "(of_int (- 1) :: rat) < of_int (dman a)"
    by simp
  then have "- 1 < dman a"
    by (simp only: of_int_less_iff)
  then show "0 \<le> dman a"
    by simp
qed

lemma dbl_nonneg: "0 < a \<Longrightarrow> 0 \<le> dbl a"
  using dman_le(2) [of a] pow2_pos [of "dexp a"] by (simp add: dbl_pos)

lemma dbl_abs: "\<bar>dbl q\<bar> = dbl \<bar>q\<bar>"
proof (cases "q < 0")
  case True
  then have "dbl q = - dbl \<bar>q\<bar>"
    using dbl_neg [of "\<bar>q\<bar>"] by simp
  with True show ?thesis
    using dbl_nonneg [of "\<bar>q\<bar>"] by simp
next
  case False
  then show ?thesis
    using dbl_nonneg [of q] by (cases "q = 0") simp_all
qed

text \<open>An integer of at most 53 bits is a double.\<close>

lemma dbl_of_int:
  assumes "\<bar>i\<bar> < 2 ^ 53"
  shows "dbl (of_int i) = of_int i"
proof -
  have pos: "dbl (of_int j) = of_int j" if "0 < j" and "j < 2 ^ 53" for j :: int
  proof -
    let ?a = "of_int j :: rat"
    have a: "0 < ?a" using that by simp
    have "(2::rat) powi ilog2 ?a \<le> ?a"
      using a by (rule ilog2_bounds)
    also have "?a < 2 powi 53"
      using that by simp
    finally have "ilog2 ?a < 53"
      by (rule pow2_less_imp)
    then have e: "dexp ?a \<le> 0"
      by (simp add: dexp_def)
    then have p: "(2::rat) powi dexp ?a = 1 / 2 ^ nat (- dexp ?a)"
      by (simp add: power_int_def inverse_eq_divide power_one_over)
    then have "?a / 2 powi dexp ?a = of_int (j * 2 ^ nat (- dexp ?a))"
      by simp
    then have "dman ?a = j * 2 ^ nat (- dexp ?a)"
      unfolding dman_def by (simp only: round_half_even_int)
    then show ?thesis
      by (simp add: dbl_pos [OF a] p)
  qed
  consider "i = 0" | "0 < i" | "i < 0" by linarith
  then show ?thesis
  proof cases
    case 1
    then show ?thesis by simp
  next
    case 2
    with assms show ?thesis by (intro pos) simp_all
  next
    case 3
    with assms have "dbl (of_int (- i)) = of_int (- i)" by (intro pos) simp_all
    then show ?thesis
      using dbl_neg [of "of_int i"] by simp
  qed
qed

lemma scaled_ge:
  assumes "0 < a" and "- 1074 \<le> ilog2 a - 52"
  shows "2 ^ 52 \<le> a / 2 powi dexp a"
proof -
  from assms(2) have e: "dexp a = ilog2 a - 52"
    by (simp add: dexp_def)
  have "(2::rat) powi ilog2 a = 2 powi dexp a * 2 ^ 52"
    unfolding e by (simp add: power_int_diff)
  with ilog2_bounds(1) [OF assms(1)] have "2 powi dexp a * 2 ^ 52 \<le> a"
    by simp
  then show ?thesis
    using pow2_pos [of "dexp a"] by (simp add: field_simps)
qed

lemma dbl_small_exp:
  assumes "0 < a" and "dexp a \<le> 970"
  shows "dbl a \<le> 2 ^ 1023"
proof -
  have "(of_int (dman a) :: rat) \<le> of_int (2 ^ 53)"
    using dman_le(1) [OF assms(1)] by (simp only: of_int_le_iff)
  then have m: "(of_int (dman a) :: rat) \<le> 2 ^ 53"
    by simp
  have "(2::rat) powi dexp a \<le> 2 powi 970"
    using assms(2) by (intro power_int_increasing) simp_all
  then have p: "(2::rat) powi dexp a \<le> 2 ^ 970"
    by simp
  have "of_int (dman a) * 2 powi dexp a \<le> (2 ^ 53 :: rat) * 2 ^ 970"
    using m p pow2_pos [of "dexp a"] by (intro mult_mono) simp_all
  then show ?thesis
    by (simp add: dbl_pos [OF assms(1)])
qed

lemma dbl_no_overflow_pos:
  assumes "0 < a" and "a < 2 ^ 1024 - 2 ^ 970"
  shows "dbl a < 2 ^ 1024"
proof (cases "dexp a \<le> 970")
  case True
  from dbl_small_exp [OF assms(1) True] show ?thesis
    by simp
next
  case False
  then have k: "- 1074 \<le> ilog2 a - 52" and "971 \<le> dexp a"
    by (simp_all add: dexp_def)
  then have e: "dexp a = ilog2 a - 52"
    by (simp add: dexp_def)
  have "(2::rat) powi ilog2 a \<le> a"
    using assms(1) by (rule ilog2_bounds)
  also have "a < 2 powi 1024"
    using assms(2) by simp
  finally have "ilog2 a < 1024"
    by (rule pow2_less_imp)
  with \<open>971 \<le> dexp a\<close> e have d: "dexp a = 971"
    by simp
  define x where "x = a / 2 powi dexp a"
  have "a / 2 ^ 971 < (2 ^ 1024 - 2 ^ 970) / 2 ^ 971"
    using assms(2) by (intro divide_strict_right_mono) simp_all
  then have "x < 2 ^ 53 - 1 / 2"
    unfolding x_def d by simp
  moreover have "of_int (dman a) \<le> x + 1 / 2"
    unfolding dman_def x_def by (rule round_half_even_bounds)
  ultimately have "(of_int (dman a) :: rat) < 2 ^ 53"
    by linarith
  then have "(of_int (dman a) :: rat) < of_int (2 ^ 53)"
    by simp
  then have "dman a < 2 ^ 53"
    by (simp only: of_int_less_iff)
  then have "dman a \<le> 2 ^ 53 - 1"
    by simp
  then have "(of_int (dman a) :: rat) \<le> of_int (2 ^ 53 - 1)"
    by (simp only: of_int_le_iff)
  then have "(of_int (dman a) :: rat) * 2 ^ 971 \<le> (2 ^ 53 - 1) * 2 ^ 971"
    by simp
  then show ?thesis
    by (simp add: dbl_pos [OF assms(1)] d)
qed

lemma dbl_no_overflow:
  assumes "\<bar>r\<bar> < 2 ^ 1024 - 2 ^ 970"
  shows "\<bar>dbl r\<bar> < 2 ^ 1024"
proof (cases "r = 0")
  case True
  then show ?thesis by simp
next
  case False
  then have "0 < \<bar>r\<bar>" by simp
  from dbl_no_overflow_pos [OF this assms] show ?thesis
    by (simp add: dbl_abs)
qed

lemma dbl_le_max_pos:
  assumes "0 < a" and "dbl a < 2 ^ 1024"
  shows "dbl a \<le> 2 ^ 1024 - 2 ^ 971"
proof (cases "dexp a \<le> 970")
  case True
  from dbl_small_exp [OF assms(1) True] show ?thesis
    by simp
next
  case False
  then have k: "- 1074 \<le> ilog2 a - 52" and g: "971 \<le> dexp a"
    by (simp_all add: dexp_def)
  define x where "x = a / 2 powi dexp a"
  have "2 ^ 52 \<le> x"
    unfolding x_def by (rule scaled_ge [OF assms(1) k])
  moreover have "x - 1 / 2 \<le> of_int (dman a)"
    unfolding dman_def x_def by (rule round_half_even_bounds)
  ultimately have "(2 ^ 52 - 1 :: rat) < of_int (dman a)"
    by linarith
  then have "(of_int (2 ^ 52 - 1) :: rat) < of_int (dman a)"
    by simp
  then have "2 ^ 52 - 1 < dman a"
    by (simp only: of_int_less_iff)
  then have "2 ^ 52 \<le> dman a"
    by simp
  then have "(of_int (2 ^ 52) :: rat) \<le> of_int (dman a)"
    by (simp only: of_int_le_iff)
  then have m: "(2 ^ 52 :: rat) \<le> of_int (dman a)"
    by simp
  have d: "dexp a = 971"
  proof (rule ccontr)
    assume "dexp a \<noteq> 971"
    with g have "972 \<le> dexp a" by simp
    then have "(2::rat) powi 972 \<le> 2 powi dexp a"
      by (intro power_int_increasing) simp_all
    then have "(2 ^ 52 :: rat) * 2 ^ 972 \<le> of_int (dman a) * 2 powi dexp a"
      using m by (intro mult_mono) simp_all
    with assms(2) show False
      by (simp add: dbl_pos [OF assms(1)])
  qed
  from assms(2) have "(of_int (dman a) :: rat) * 2 ^ 971 < 2 ^ 53 * 2 ^ 971"
    by (simp add: dbl_pos [OF assms(1)] d)
  then have "(of_int (dman a) :: rat) < of_int (2 ^ 53)"
    by simp
  then have "dman a < 2 ^ 53"
    by (simp only: of_int_less_iff)
  then have "dman a \<le> 2 ^ 53 - 1"
    by simp
  then have "(of_int (dman a) :: rat) \<le> of_int (2 ^ 53 - 1)"
    by (simp only: of_int_le_iff)
  then have "(of_int (dman a) :: rat) * 2 ^ 971 \<le> (2 ^ 53 - 1) * 2 ^ 971"
    by simp
  then show ?thesis
    by (simp add: dbl_pos [OF assms(1)] d)
qed

lemma dbl_le_max:
  assumes "\<bar>dbl q\<bar> < 2 ^ 1024"
  shows "\<bar>dbl q\<bar> \<le> 2 ^ 1024 - 2 ^ 971"
proof (cases "q = 0")
  case True
  then show ?thesis by simp
next
  case False
  then have "0 < \<bar>q\<bar>" by simp
  from dbl_le_max_pos [OF this] assms show ?thesis
    by (simp add: dbl_abs)
qed

text \<open>Rounding a double to two decimal places does not overflow.\<close>

lemma round2_no_overflow:
  assumes "\<bar>q\<bar> \<le> 2 ^ 1024 - 2 ^ 971"
  shows "\<bar>dbl (of_int (round_half_even (q * 100)) / 100)\<bar> < 2 ^ 1024"
proof -
  let ?r = "of_int (round_half_even (q * 100)) / 100 :: rat"
  have "of_int (round_half_even (q * 100)) \<le> q * 100 + 1 / 2"
    and "q * 100 - 1 / 2 \<le> of_int (round_half_even (q * 100))"
    by (rule round_half_even_bounds)+
  then have "?r \<le> q + 1 / 200" and "q - 1 / 200 \<le> ?r"
    by simp_all
  then have "\<bar>?r\<bar> \<le> \<bar>q\<bar> + 1 / 200"
    by linarith
  with assms have "\<bar>?r\<bar> \<le> 2 ^ 1024 - 2 ^ 971 + 1 / 200"
    by linarith
  also have "\<dots> < 2 ^ 1024 - 2 ^ 970"
    by simp
  finally show ?thesis
    by (rule dbl_no_overflow)
qed

lemma ilog2_unique:
  assumes "0 < a" and "2 powi k \<le> a" and "a < 2 powi (k + 1)"
  shows "ilog2 a = k"
proof -
  from ilog2_bounds [OF assms(1)] assms(2,3)
  have u: "(2::rat) powi ilog2 a < 2 powi (k + 1)" and l: "(2::rat) powi k < 2 powi (ilog2 a + 1)"
    by linarith+
  from u have "ilog2 a < k + 1"
    by (rule pow2_less_imp)
  moreover from l have "k < ilog2 a + 1"
    by (rule pow2_less_imp)
  ultimately show ?thesis
    by linarith
qed

lemma dbl_at:
  assumes "0 < a" and "2 powi (e + 52) \<le> a" and "a < 2 powi (e + 53)" and "- 1074 \<le> e"
  shows "dbl a = of_int (round_half_even (a / 2 powi e)) * 2 powi e"
proof -
  from assms(3) have "a < 2 powi (e + 52 + 1)"
    by (simp add: add.assoc)
  with assms(1,2) have "ilog2 a = e + 52"
    by (rule ilog2_unique)
  with assms(4) have "dexp a = e"
    by (simp add: dexp_def)
  with dbl_pos [OF assms(1)] show ?thesis
    by (simp add: dman_def)
qed

lemma to_float_not_NaN [simp]: "to_float x \<noteq> NaN"
  by (simp add: to_float_def Let_def)

lemma to_float_Finite:
  assumes "to_float x = Finite v"
  shows "v = dbl x" and "\<bar>v\<bar> \<le> 2 ^ 1024 - 2 ^ 971"
proof -
  from assms show v: "v = dbl x"
    by (simp add: to_float_def Let_def split: if_splits)
  from assms have "\<not> 2 ^ 1024 \<le> dbl x" "\<not> dbl x \<le> - (2 ^ 1024)"
    by (simp_all add: to_float_def Let_def split: if_splits)
  then have "\<bar>dbl x\<bar> < 2 ^ 1024"
    by linarith
  then show "\<bar>v\<bar> \<le> 2 ^ 1024 - 2 ^ 971"
    unfolding v by (rule dbl_le_max)
qed

lemma to_float_in_range:
  assumes "\<bar>dbl x\<bar> < 2 ^ 1024"
  shows "to_float x = Finite (dbl x)"
proof -
  from assms have "\<not> 2 ^ 1024 \<le> dbl x" "\<not> dbl x \<le> - (2 ^ 1024)"
    by linarith+
  then show ?thesis
    by (simp add: to_float_def Let_def)
qed

lemma to_float_int64:
  assumes "- (2 ^ 63) \<le> i" and "i < 2 ^ 64"
  shows "to_float (of_int i) = Finite (dbl (of_int i))"
proof (rule to_float_in_range, rule dbl_no_overflow)
  have "(2::int) ^ 63 \<le> 2 ^ 64"
    by simp
  with assms have "\<bar>i\<bar> \<le> 2 ^ 64"
    by linarith
  then have "\<bar>rat_of_int i\<bar> \<le> rat_of_int (2 ^ 64)"
    unfolding of_int_abs [symmetric] of_int_le_iff .
  then have "\<bar>rat_of_int i\<bar> \<le> 2 ^ 64"
    by simp
  moreover have "(2::rat) ^ 64 < 2 ^ 1024 - 2 ^ 970"
    by simp
  ultimately show "\<bar>rat_of_int i\<bar> < 2 ^ 1024 - 2 ^ 970"
    by linarith
qed

lemma to_float_bound: "to_float x = Finite v \<Longrightarrow> \<bar>v\<bar> \<le> 2 ^ 1024 - 2 ^ 971"
  by (rule to_float_Finite(2))

lemma scale_finite:
  assumes "scale number exponent = (False, x)"
  shows "\<exists>v. x = Finite v \<and> \<bar>v\<bar> \<le> 2 ^ 1024 - 2 ^ 971"
proof -
  from assms have e: "\<not> 308 < exponent"
    by (auto simp: scale_def)
  with assms have n: "x \<noteq> PosInf" "x \<noteq> NegInf"
    by (auto simp: scale_def Let_def)
  from assms e have "x = Finite 0 \<or> (\<exists>y. x = to_float y)"
    by (auto simp: scale_def Let_def split: if_splits)
  then show ?thesis
  proof
    assume "x = Finite 0"
    then show ?thesis by simp
  next
    assume "\<exists>y. x = to_float y"
    then obtain y where y: "x = to_float y" ..
    with n obtain v where v: "to_float y = Finite v"
      by (cases "to_float y") simp_all
    then have "\<bar>v\<bar> \<le> 2 ^ 1024 - 2 ^ 971"
      by (rule to_float_bound)
    with y v show ?thesis by simp
  qed
qed

lemma xstrtod_finite:
  assumes "xstrtod s = Some (b, x)"
  shows "\<exists>v. x = Finite v \<and> \<bar>v\<bar> \<le> 2 ^ 1024 - 2 ^ 971"
proof -
  from assms obtain number exponent where "scale number exponent = (False, x)"
    by (auto simp: xstrtod_def Let_def split: prod.splits if_splits)
  then show ?thesis
    by (rule scale_finite)
qed

lemma to_numeric_bound:
  assumes "to_numeric s = Finite q"
  shows "\<bar>q\<bar> \<le> 2 ^ 1024 - 2 ^ 971"
proof -
  from assms obtain b x where x: "xstrtod (c_string s) = Some (b, x)"
    by (auto simp: to_numeric_def Let_def split: if_splits option.splits)
  from xstrtod_finite [OF x] obtain v where v: "x = Finite v" "\<bar>v\<bar> \<le> 2 ^ 1024 - 2 ^ 971"
    by blast
  from assms x have "Finite q = x \<or> (\<exists>i. to_float (of_int i) = Finite q)"
    by (auto simp: to_numeric_def Let_def split: if_splits sum.splits)
  with v show ?thesis
    using to_float_bound by auto
qed

lemma py_round2_Finite:
  assumes "\<bar>q\<bar> \<le> 2 ^ 1024 - 2 ^ 971"
  shows "py_round2 (Finite q) = Finite (dbl (of_int (round_half_even (q * 100)) / 100))"
  using round2_no_overflow [OF assms] by (simp add: py_round2_def to_float_in_range)

subsection \<open>Evaluation\<close>

text \<open>The equations the simplifier runs the model with, on concrete inputs.\<close>

lemma floor_rat_numeral: "\<lfloor>(numeral a / numeral b :: rat)\<rfloor> = numeral a div numeral b"
  using floor_divide_of_int_eq [of "numeral a" "numeral b", where ?'a = rat] by simp

lemmas str_defs = py_isspace_def strip_def isdigit_ascii_def digit_val_def digits_val_def
  digit_char_def digits_of.simps str_int_def fmt_02d_def isspace_c_def space_to_ascii_def
  take_sign_def int_error_def py_int_def Let_def

lemma dbl_numeral: "numeral n < (2 ^ 53 :: int) \<Longrightarrow> dbl (numeral n) = numeral n"
  using dbl_of_int [of "numeral n"] by simp

lemma dbl_one [simp]: "dbl 1 = 1"
  using dbl_of_int [of 1] by simp

lemmas num_defs = c_string_def to_float_def e10_def wrap32_def accumulate_def fraction_part_def
  exponent_part_def scale_def xstrtod_def lower_ascii_def to_numeric_def notnull_def
  round_half_even_def py_round2_def py_str_def replace_comma_def valor_def floor_rat_numeral
  dbl_numeral

lemmas run_defs = month_map_def month_names_def required_columns_def missing_columns_def
  date_columns_def repr_str_def repr_list_def no_date_columns_message_def
  validate_input_data_def parse_date_column_def date_str_def make_observation_def
  float_key_def cell_key_def by_key_def sort_values_def transform_data_def
  mk_row_def scenario_def one_cell_def header_ok_def is_str_def

lemma scenario_run:
  "transform_data fr (scenario (CInt 2000)) =
     Inr [\<lparr>Data = ''2024-01-01'', Ano = 2024, Mes = 1, Mes_Nome = ''Janeiro'',
            Tipo = CStr ''Entrada'', Grupo = CStr ''Vendas'', Categoria = ''Produtos'',
            Valor = Finite 0\<rparr>,
          \<lparr>Data = ''2024-02-01'', Ano = 2024, Mes = 2, Mes_Nome = ''Fevereiro'',
            Tipo = CStr ''Entrada'', Grupo = CStr ''Vendas'', Categoria = ''Produtos'',
            Valor = Finite 2000\<rparr>]"
  by (simp add: str_defs num_defs run_defs)

lemma scenario_text_run:
  "transform_data fr (scenario (CStr ''2000'')) = transform_data fr (scenario (CInt 2000))"
  by (simp add: str_defs num_defs run_defs)

lemma scenario_valid: "validate_input_data (scenario c) = Inr True"
  by (simp add: run_defs)

text \<open>
  The order of the sort on two Observations whose \<^verbatim>\<open>Tipo\<close> and \<^verbatim>\<open>Grupo\<close> are
  strings is the lexicographic order of the four strings.
\<close>

lemma by_key_strings:
  assumes "Tipo a = CStr t" "Grupo a = CStr g" "Tipo b = CStr t'" "Grupo b = CStr g'"
  shows "by_key a \<le> by_key b \<longleftrightarrow> (Data a, t, g, Categoria a) \<le> (Data b, t', g', Categoria b)"
  using assms by (auto simp: by_key_def cell_key_def)

subsection \<open>The row-count law\<close>

text \<open>
  Claim C1, amended. Passing validation does not make the run complete. For a table
  that passes validation: the run returns Observations when the table has a row, every
  date column header parses to a known month and an integer year and every
  \<^verbatim>\<open>Categoria\<close> cell is a string; whenever the reshape completes, it has produced
  (number of rows) times (number of date columns) Observations, exactly the one of
  each (row, date column) pair, in row-major order; and whenever the run returns, its
  output holds as many, the same Observations, none dropped and none added.
\<close>

theorem row_count_law:
  assumes "validate_input_data df = Inr True"
  shows "(rows df \<noteq> [] \<and> list_all header_ok (date_columns df)
            \<and> list_all (\<lambda>r. is_str (r ''Categoria'')) (rows df)
          \<longrightarrow> (\<exists>out. transform_data fr df = Inr out))
       \<and> (\<forall>obs. reshape fr (date_columns df) (rows df) = Inr obs \<longrightarrow>
             length obs = length (rows df) * length (date_columns df)
             \<and> map Inr obs = concat (map (\<lambda>r. map (make_observation fr r) (date_columns df)) (rows df)))
       \<and> (\<forall>out. transform_data fr df = Inr out \<longrightarrow>
             length out = length (rows df) * length (date_columns df)
             \<and> mset (map Inr out)
                 = mset (concat (map (\<lambda>r. map (make_observation fr r) (date_columns df)) (rows df))))"
proof (intro conjI impI allI)
  assume "rows df \<noteq> [] \<and> list_all header_ok (date_columns df)
            \<and> list_all (\<lambda>r. is_str (r ''Categoria'')) (rows df)"
  with assms show "\<exists>out. transform_data fr df = Inr out"
    by (simp add: transform_data_succeeds_iff)
next
  fix obs
  assume "reshape fr (date_columns df) (rows df) = Inr obs"
  then show "length obs = length (rows df) * length (date_columns df)"
    and "map Inr obs = concat (map (\<lambda>r. map (make_observation fr r) (date_columns df)) (rows df))"
    by (simp_all add: reshape_length reshape_concat)
next
  fix out
  assume "transform_data fr df = Inr out"
  then obtain obs where r: "reshape fr (date_columns df) (rows df) = Inr obs"
    and o: "out = sort_key by_key obs"
    using transform_data_reshape by blast
  from r o show "length out = length (rows df) * length (date_columns df)"
    by (simp add: reshape_length)
  have "mset (map Inr out) = mset (map Inr obs)"
    using o by simp
  with r show "mset (map Inr out)
      = mset (concat (map (\<lambda>r. map (make_observation fr r) (date_columns df)) (rows df)))"
    by (simp add: reshape_concat)
qed

text \<open>
  Claim C1 as stated fails: this table passes validation and has one row and one date
  column, but its \<^verbatim>\<open>Categoria\<close> cell is missing, so the reshape raises and no
  Observation is produced.
\<close>

theorem row_count_law_counterexample:
  "validate_input_data (one_cell ''Jan/24'' (CFloat NaN) (CInt 10)) = Inr True
   \<and> length (rows (one_cell ''Jan/24'' (CFloat NaN) (CInt 10)))
       * length (date_columns (one_cell ''Jan/24'' (CFloat NaN) (CInt 10))) = 1
   \<and> reshape (\<lambda>q. []) (date_columns (one_cell ''Jan/24'' (CFloat NaN) (CInt 10)))
        (rows (one_cell ''Jan/24'' (CFloat NaN) (CInt 10))) = Inl AttributeError
   \<and> transform_data (\<lambda>q. []) (one_cell ''Jan/24'' (CFloat NaN) (CInt 10)) = Inl AttributeError"
  by code_simp

text \<open>The law on the scenario of the specification: one row, two date columns.\<close>

theorem row_count_law_witness:
  "validate_input_data (scenario (CInt 2000)) = Inr True
   \<and> (\<exists>out. transform_data (\<lambda>q. []) (scenario (CInt 2000)) = Inr out \<and> length out = 2)"
proof -
  have v: "validate_input_data (scenario (CInt 2000)) = Inr True"
    by code_simp
  have h: "rows (scenario (CInt 2000)) \<noteq> [] \<and> list_all header_ok (date_columns (scenario (CInt 2000)))
      \<and> list_all (\<lambda>r. is_str (r ''Categoria'')) (rows (scenario (CInt 2000)))"
    by code_simp
  have n: "length (rows (scenario (CInt 2000))) * length (date_columns (scenario (CInt 2000))) = 2"
    by code_simp
  from row_count_law [OF v, of "\<lambda>q. []"] h n v show ?thesis
    by metis
qed

subsection \<open>The sort invariant\<close>

text \<open>
  Claim C2. For every input table that passes validation, the sequence
  \<^verbatim>\<open>transform_data\<close> returns is sorted ascending by (\<^verbatim>\<open>Data\<close>, \<^verbatim>\<open>Tipo\<close>, \<^verbatim>\<open>Grupo\<close>,
  \<^verbatim>\<open>Categoria\<close>): the key of each record is at most the key of the next one. The
  order of the keys is that of \<open>by_key\<close>; on records whose \<^verbatim>\<open>Tipo\<close> and \<^verbatim>\<open>Grupo\<close>
  are strings it is the lexicographic order of the tuple of the four strings, each
  compared by code point.
\<close>

theorem sort_invariant:
  assumes "validate_input_data df = Inr True"
    and "transform_data fr df = Inr out"
    and "Suc i < length out"
  shows "by_key (out ! i) \<le> by_key (out ! Suc i)
       \<and> (\<forall>t g t' g'. Tipo (out ! i) = CStr t \<and> Grupo (out ! i) = CStr g
             \<and> Tipo (out ! Suc i) = CStr t' \<and> Grupo (out ! Suc i) = CStr g' \<longrightarrow>
           (Data (out ! i), t, g, Categoria (out ! i))
             \<le> (Data (out ! Suc i), t', g', Categoria (out ! Suc i)))"
proof -
  from assms(2) obtain obs where "out = sort_key by_key obs"
    using transform_data_reshape by blast
  then have "sorted (map by_key out)"
    by simp
  with assms(3) have le: "by_key (out ! i) \<le> by_key (out ! Suc i)"
    by (simp add: sorted_iff_nth_Suc)
  then show ?thesis
    using by_key_strings by blast
qed

text \<open>The invariant on the two records of the scenario of the specification.\<close>

theorem sort_invariant_witness:
  "validate_input_data (scenario (CInt 2000)) = Inr True
   \<and> (\<exists>out. transform_data (\<lambda>q. []) (scenario (CInt 2000)) = Inr out \<and> Suc 0 < length out
        \<and> by_key (out ! 0) \<le> by_key (out ! Suc 0)
        \<and> Data (out ! 0) = ''2024-01-01'' \<and> Data (out ! Suc 0) = ''2024-02-01'')"
proof -
  let ?out = "[\<lparr>Data = ''2024-01-01'', Ano = 2024, Mes = 1, Mes_Nome = ''Janeiro'',
                 Tipo = CStr ''Entrada'', Grupo = CStr ''Vendas'', Categoria = ''Produtos'',
                 Valor = Finite 0\<rparr>,
               \<lparr>Data = ''2024-02-01'', Ano = 2024, Mes = 2, Mes_Nome = ''Fevereiro'',
                 Tipo = CStr ''Entrada'', Grupo = CStr ''Vendas'', Categoria = ''Produtos'',
                 Valor = Finite 2000\<rparr>]"
  have v: "validate_input_data (scenario (CInt 2000)) = Inr True"
    by (rule scenario_valid)
  have t: "transform_data (\<lambda>q. []) (scenario (CInt 2000)) = Inr ?out"
    by (rule scenario_run)
  have l: "Suc 0 < length ?out"
    by simp
  from sort_invariant [OF v t l] have "by_key (?out ! 0) \<le> by_key (?out ! Suc 0)"
    by blast
  with v t show ?thesis
    by simp
qed

subsection \<open>The end-to-end scenario\<close>

text \<open>
  Claim C3, amended. On the table of the scenario (one row, \<^verbatim>\<open>Tipo\<close> Entrada,
  \<^verbatim>\<open>Grupo\<close> Vendas, \<^verbatim>\<open>Categoria\<close> Produtos between two spaces, January
  \<^verbatim>\<open>1.500,00\<close>, February 2000) the run returns two records, in this order:
  (2024-01-01, 2024, 1, Janeiro, Entrada, Vendas, Produtos, 0.00) and
  (2024-02-01, 2024, 2, Fevereiro, Entrada, Vendas, Produtos, 2000.00). The cell of
  January becomes \<^verbatim>\<open>1.500.00\<close>, which is no number, so its \<^verbatim>\<open>Valor\<close> is 0.00 and
  not 1500.00. The result is the same whether the cell of February is the integer 2000
  or the text \<^verbatim>\<open>2000\<close>.
\<close>

theorem scenario_output:
  "transform_data fr (scenario (CInt 2000)) =
     Inr [\<lparr>Data = ''2024-01-01'', Ano = 2024, Mes = 1, Mes_Nome = ''Janeiro'',
            Tipo = CStr ''Entrada'', Grupo = CStr ''Vendas'', Categoria = ''Produtos'',
            Valor = Finite 0\<rparr>,
          \<lparr>Data = ''2024-02-01'', Ano = 2024, Mes = 2, Mes_Nome = ''Fevereiro'',
            Tipo = CStr ''Entrada'', Grupo = CStr ''Vendas'', Categoria = ''Produtos'',
            Valor = Finite 2000\<rparr>]
   \<and> transform_data fr (scenario (CStr ''2000'')) = transform_data fr (scenario (CInt 2000))"
  using scenario_run [of fr] scenario_text_run [of fr] by simp

text \<open>
  Claim C3 as stated fails: whatever Python prints for floats, the run does not return
  the two records of the claim, whose first \<^verbatim>\<open>Valor\<close> is 1500.00.
\<close>

theorem scenario_output_counterexample:
  "\<forall>fr. transform_data fr (scenario (CInt 2000)) \<noteq>
       Inr [\<lparr>Data = ''2024-01-01'', Ano = 2024, Mes = 1, Mes_Nome = ''Janeiro'',
              Tipo = CStr ''Entrada'', Grupo = CStr ''Vendas'', Categoria = ''Produtos'',
              Valor = Finite 1500\<rparr>,
            \<lparr>Data = ''2024-02-01'', Ano = 2024, Mes = 2, Mes_Nome = ''Fevereiro'',
              Tipo = CStr ''Entrada'', Grupo = CStr ''Vendas'', Categoria = ''Produtos'',
              Valor = Finite 2000\<rparr>]
     \<and> transform_data fr (scenario (CStr ''2000'')) \<noteq>
       Inr [\<lparr>Data = ''2024-01-01'', Ano = 2024, Mes = 1, Mes_Nome = ''Janeiro'',
              Tipo = CStr ''Entrada'', Grupo = CStr ''Vendas'', Categoria = ''Produtos'',
              Valor = Finite 1500\<rparr>,
            \<lparr>Data = ''2024-02-01'', Ano = 2024, Mes = 2, Mes_Nome = ''Fevereiro'',
              Tipo = CStr ''Entrada'', Grupo = CStr ''Vendas'', Categoria = ''Produtos'',
              Valor = Finite 2000\<rparr>]"
  by (simp add: scenario_run scenario_text_run)

text \<open>The values of the two records, read off the theorem.\<close>

theorem scenario_output_witness:
  "map Valor (case transform_data (\<lambda>q. []) (scenario (CInt 2000)) of Inl e \<Rightarrow> [] | Inr out \<Rightarrow> out)
     = [Finite 0, Finite 2000]"
  using scenario_output [of "\<lambda>q. []"] by simp

subsection \<open>The value of a cell\<close>

lemma make_observation_valor:
  "make_observation fr r c = Inr ob \<Longrightarrow> Valor ob = valor fr (r c)"
  by (auto simp: make_observation_def split: sum.splits option.splits prod.splits cell.splits)

lemma reshape_member:
  assumes "reshape fr cols rs = Inr obs" and "r \<in> set rs" and "c \<in> set cols"
  shows "\<exists>ob \<in> set obs. make_observation fr r c = Inr ob"
proof -
  from assms(2,3) have "make_observation fr r c
      \<in> set (concat (map (\<lambda>r. map (make_observation fr r) cols) rs))"
    by auto
  with reshape_concat [OF assms(1)] have "make_observation fr r c \<in> set (map Inr obs)"
    by simp
  then show ?thesis by auto
qed

lemma reshape_origin:
  assumes "reshape fr cols rs = Inr obs" and "ob \<in> set obs"
  shows "\<exists>r \<in> set rs. \<exists>c \<in> set cols. make_observation fr r c = Inr ob"
proof -
  from assms(2) have "Inr ob \<in> set (map Inr obs)" by simp
  with reshape_concat [OF assms(1)]
  have "Inr ob \<in> set (concat (map (\<lambda>r. map (make_observation fr r) cols) rs))"
    by simp
  then obtain r c where "r \<in> set rs" "c \<in> set cols" "Inr ob = make_observation fr r c"
    by auto
  then show ?thesis by metis
qed

lemma transform_data_set:
  "transform_data fr df = Inr out \<Longrightarrow>
     \<exists>obs. reshape fr (date_columns df) (rows df) = Inr obs \<and> set out = set obs"
  using transform_data_reshape [of fr df out] by auto

lemma valor_zero: "to_numeric (replace_comma (py_str fr c)) = NaN \<Longrightarrow> valor fr c = Finite 0"
  by (simp add: valor_def notnull_def)

lemma valor_Finite:
  assumes "to_numeric (replace_comma (py_str fr c)) = Finite x"
  shows "valor fr c = Finite (dbl (of_int (round_half_even (x * 100)) / 100))"
    and "\<bar>dbl (of_int (round_half_even (x * 100)) / 100)\<bar> \<le> 2 ^ 1024 - 2 ^ 971"
proof -
  from assms have x: "\<bar>x\<bar> \<le> 2 ^ 1024 - 2 ^ 971"
    by (rule to_numeric_bound)
  then have p: "py_round2 (Finite x) = Finite (dbl (of_int (round_half_even (x * 100)) / 100))"
    by (rule py_round2_Finite)
  with assms show "valor fr c = Finite (dbl (of_int (round_half_even (x * 100)) / 100))"
    by (simp add: valor_def notnull_def)
  from round2_no_overflow [OF x]
  show "\<bar>dbl (of_int (round_half_even (x * 100)) / 100)\<bar> \<le> 2 ^ 1024 - 2 ^ 971"
    by (rule dbl_le_max)
qed

lemma valor_cases:
  "valor fr c \<noteq> NaN"
  "valor fr c = PosInf \<longleftrightarrow> to_numeric (replace_comma (py_str fr c)) = PosInf"
  "valor fr c = NegInf \<longleftrightarrow> to_numeric (replace_comma (py_str fr c)) = NegInf"
proof -
  have "valor fr c \<noteq> NaN
      \<and> (valor fr c = PosInf \<longleftrightarrow> to_numeric (replace_comma (py_str fr c)) = PosInf)
      \<and> (valor fr c = NegInf \<longleftrightarrow> to_numeric (replace_comma (py_str fr c)) = NegInf)"
  proof (cases "to_numeric (replace_comma (py_str fr c))")
    case (Finite x)
    from valor_Finite(1) [OF Finite] Finite show ?thesis
      by simp
  next
    case PosInf
    then show ?thesis
      by (simp add: valor_def notnull_def py_round2_def)
  next
    case NegInf
    then show ?thesis
      by (simp add: valor_def notnull_def py_round2_def)
  next
    case NaN
    then show ?thesis
      by (simp add: valor_zero)
  qed
  then show "valor fr c \<noteq> NaN"
    and "valor fr c = PosInf \<longleftrightarrow> to_numeric (replace_comma (py_str fr c)) = PosInf"
    and "valor fr c = NegInf \<longleftrightarrow> to_numeric (replace_comma (py_str fr c)) = NegInf"
    by simp_all
qed

text \<open>
  The product of the parser overflows for \<^verbatim>\<open>2e308\<close>, whose exponent the table of
  powers of ten still holds: the parse fails there too.
\<close>

lemma e10_308: "e10 308 = of_int (round_half_even (10 ^ 308 / 2 ^ 971)) * 2 ^ 971"
  using dbl_at [of "10 ^ 308" 971] by (simp add: e10_def)

lemma to_float_2e308: "to_float (2 * e10 308) = PosInf"
proof -
  have "dbl (2 * e10 308) = 2 * e10 308"
    unfolding e10_308 using dbl_at [of "2 * (of_int (round_half_even (10 ^ 308 / 2 ^ 971)) * 2 ^ 971)" 972]
    by (simp add: round_half_even_def floor_rat_numeral)
  moreover have "2 ^ 1024 \<le> 2 * e10 308"
    unfolding e10_308 by (simp add: round_half_even_def floor_rat_numeral)
  ultimately show ?thesis
    by (simp add: to_float_def)
qed

lemma to_numeric_2e308: "to_numeric ''2e308'' = NaN"
  by (simp add: str_defs c_string_def wrap32_def accumulate_def fraction_part_def
      exponent_part_def scale_def xstrtod_def lower_ascii_def to_numeric_def dbl_numeral
      to_float_2e308)

text \<open>
  The rounding is that of the double, not of the decimal numeral of the text: the
  double read from \<^verbatim>\<open>2,675\<close> is below 2.675, and its \<^verbatim>\<open>Valor\<close> is the double of
  2.67.
\<close>

lemma dbl_2675: "dbl (107 / 40) = 3011782250804019 / 1125899906842624"
  using dbl_at [of "107 / 40" "- 51"] by (simp add: round_half_even_def floor_rat_numeral)

lemma valor_2675: "valor fr (CStr ''2,675'') = Finite (dbl (267 / 100))"
proof -
  have n: "to_numeric ''2.675'' = Finite (3011782250804019 / 1125899906842624)"
    by (simp add: str_defs num_defs dbl_2675)
  have "\<bar>3011782250804019 / 1125899906842624 :: rat\<bar> \<le> 2 ^ 1024 - 2 ^ 971"
    by simp
  then have "py_round2 (Finite (3011782250804019 / 1125899906842624)) = Finite (dbl (267 / 100))"
    by (simp add: py_round2_Finite round_half_even_def floor_rat_numeral)
  with n show ?thesis
    by (simp add: valor_def py_str_def replace_comma_def notnull_def)
qed

text \<open>
  A run on a table that passes validation, has a row, has headers that parse and has
  strings for categories returns exactly the records of the loop body, one for each
  cell of a date column.
\<close>

lemma transform_data_emits:
  assumes "validate_input_data df = Inr True" and "rows df \<noteq> []"
    and "list_all header_ok (date_columns df)"
    and "list_all (\<lambda>r. is_str (r ''Categoria'')) (rows df)"
  shows "\<exists>out. transform_data fr df = Inr out
     \<and> length out = length (rows df) * length (date_columns df)
     \<and> mset (map Inr out)
         = mset (concat (map (\<lambda>r. map (make_observation fr r) (date_columns df)) (rows df)))
     \<and> (\<forall>r \<in> set (rows df). \<forall>c \<in> set (date_columns df).
          \<exists>ob \<in> set out. make_observation fr r c = Inr ob \<and> Valor ob = valor fr (r c))"
proof -
  from assms obtain out where t: "transform_data fr df = Inr out"
    using transform_data_succeeds_iff [of fr df] by blast
  then obtain obs where r: "reshape fr (date_columns df) (rows df) = Inr obs"
    and o: "out = sort_key by_key obs"
    using transform_data_reshape by blast
  from r o have l: "length out = length (rows df) * length (date_columns df)"
    by (simp add: reshape_length)
  have "mset (map Inr out) = mset (map Inr obs)"
    using o by simp
  with r have m: "mset (map Inr out)
      = mset (concat (map (\<lambda>r. map (make_observation fr r) (date_columns df)) (rows df)))"
    by (simp add: reshape_concat)
  have "\<forall>r \<in> set (rows df). \<forall>c \<in> set (date_columns df).
          \<exists>ob \<in> set out. make_observation fr r c = Inr ob \<and> Valor ob = valor fr (r c)"
  proof (intro ballI)
    fix x c
    assume "x \<in> set (rows df)" and "c \<in> set (date_columns df)"
    with reshape_member [OF r] obtain ob where "ob \<in> set obs"
      and ob: "make_observation fr x c = Inr ob"
      by blast
    moreover from ob have "Valor ob = valor fr (x c)"
      by (rule make_observation_valor)
    ultimately show "\<exists>ob \<in> set out. make_observation fr x c = Inr ob \<and> Valor ob = valor fr (x c)"
      using o by auto
  qed
  with t l m show ?thesis
    by blast
qed

text \<open>
  Claim C4. For every cell of a date column whose text, after every comma is replaced
  by a period, is no number for \<^verbatim>\<open>to_numeric\<close> (it returns NaN), the \<^verbatim>\<open>Valor\<close> of
  the Observation of that cell is exactly 0.00, and the record is emitted, never
  dropped: the loop body returns it whenever the header parses and the \<^verbatim>\<open>Categoria\<close>
  is a string; whenever the run returns, the record is in its output; and the run does
  return, with one record for each cell of a date column, that one among them, on
  every table that passes validation and whose headers parse and whose categories are
  strings. The empty text, texts that are no number, the missing cell (it prints as
  \<^verbatim>\<open>nan\<close>), \<^verbatim>\<open>1.500,00\<close> (which becomes \<^verbatim>\<open>1.500.00\<close>) and the numerals beyond the
  range of the doubles, for which the parser of pandas fails (\<^verbatim>\<open>1e309\<close>, with or
  without a sign, and \<^verbatim>\<open>2e308\<close>), are such cells.
\<close>

theorem zero_fill:
  "(to_numeric (replace_comma (py_str fr (r c))) = NaN \<longrightarrow>
      valor fr (r c) = Finite 0
      \<and> (header_ok c \<and> is_str (r ''Categoria'') \<longrightarrow>
           (\<exists>ob. make_observation fr r c = Inr ob \<and> Valor ob = Finite 0))
      \<and> (\<forall>df out. transform_data fr df = Inr out \<and> r \<in> set (rows df) \<and> c \<in> set (date_columns df) \<longrightarrow>
           (\<exists>ob \<in> set out. make_observation fr r c = Inr ob \<and> Valor ob = Finite 0))
      \<and> (\<forall>df. validate_input_data df = Inr True \<and> list_all header_ok (date_columns df)
                \<and> list_all (\<lambda>r. is_str (r ''Categoria'')) (rows df)
                \<and> r \<in> set (rows df) \<and> c \<in> set (date_columns df) \<longrightarrow>
           (\<exists>out. transform_data fr df = Inr out
              \<and> length out = length (rows df) * length (date_columns df)
              \<and> mset (map Inr out)
                  = mset (concat (map (\<lambda>r. map (make_observation fr r) (date_columns df)) (rows df)))
              \<and> (\<exists>ob \<in> set out. make_observation fr r c = Inr ob \<and> Valor ob = Finite 0))))
   \<and> to_numeric (replace_comma (py_str fr (CStr []))) = NaN
   \<and> to_numeric (replace_comma (py_str fr (CStr ''abc''))) = NaN
   \<and> to_numeric (replace_comma (py_str fr (CStr ''R$ 10''))) = NaN
   \<and> to_numeric (replace_comma (py_str fr (CFloat NaN))) = NaN
   \<and> replace_comma (py_str fr (CStr ''1.500,00'')) = ''1.500.00''
   \<and> to_numeric (replace_comma (py_str fr (CStr ''1.500,00''))) = NaN
   \<and> to_numeric (replace_comma (py_str fr (CStr ''1e309''))) = NaN
   \<and> to_numeric (replace_comma (py_str fr (CStr ''-1e309''))) = NaN
   \<and> to_numeric (replace_comma (py_str fr (CStr ''2e308''))) = NaN"
proof (intro conjI impI allI)
  show "to_numeric (replace_comma (py_str fr (CStr ''2e308''))) = NaN"
    by (simp add: py_str_def replace_comma_def to_numeric_2e308)
next
  assume n: "to_numeric (replace_comma (py_str fr (r c))) = NaN"
  then show z: "valor fr (r c) = Finite 0"
    by (rule valor_zero)
  {
    assume "header_ok c \<and> is_str (r ''Categoria'')"
    then obtain ob where ob: "make_observation fr r c = Inr ob"
      using make_observation_ok by blast
    with z have "Valor ob = Finite 0"
      by (simp add: make_observation_valor)
    with ob show "\<exists>ob. make_observation fr r c = Inr ob \<and> Valor ob = Finite 0"
      by blast
  }
  {
    fix df out
    assume a: "transform_data fr df = Inr out \<and> r \<in> set (rows df) \<and> c \<in> set (date_columns df)"
    then obtain obs where obs: "reshape fr (date_columns df) (rows df) = Inr obs"
      and s: "set out = set obs"
      using transform_data_set by blast
    from reshape_member [OF obs] a obtain ob where "ob \<in> set obs"
      and ob: "make_observation fr r c = Inr ob"
      by blast
    moreover from ob z have "Valor ob = Finite 0"
      by (simp add: make_observation_valor)
    ultimately show "\<exists>ob \<in> set out. make_observation fr r c = Inr ob \<and> Valor ob = Finite 0"
      using s by blast
  }
  {
    fix df
    assume a: "validate_input_data df = Inr True \<and> list_all header_ok (date_columns df)
                \<and> list_all (\<lambda>r. is_str (r ''Categoria'')) (rows df)
                \<and> r \<in> set (rows df) \<and> c \<in> set (date_columns df)"
    then have "rows df \<noteq> []"
      by auto
    with a obtain out where t: "transform_data fr df = Inr out"
      and l: "length out = length (rows df) * length (date_columns df)"
      and m: "mset (map Inr out)
          = mset (concat (map (\<lambda>r. map (make_observation fr r) (date_columns df)) (rows df)))"
      and e: "\<forall>r \<in> set (rows df). \<forall>c \<in> set (date_columns df).
          \<exists>ob \<in> set out. make_observation fr r c = Inr ob \<and> Valor ob = valor fr (r c)"
      using transform_data_emits [of df fr] by blast
    from e a z have "\<exists>ob \<in> set out. make_observation fr r c = Inr ob \<and> Valor ob = Finite 0"
      by fastforce
    with t l m show "\<exists>out. transform_data fr df = Inr out
              \<and> length out = length (rows df) * length (date_columns df)
              \<and> mset (map Inr out)
                  = mset (concat (map (\<lambda>r. map (make_observation fr r) (date_columns df)) (rows df)))
              \<and> (\<exists>ob \<in> set out. make_observation fr r c = Inr ob \<and> Valor ob = Finite 0)"
      by blast
  }
qed (simp_all add: str_defs num_defs)

text \<open>
  The law on the run of the scenario of the specification, at its cell of January:
  the run returns two records, and the one of January is among them with the value 0.
\<close>

theorem zero_fill_witness:
  "to_numeric (replace_comma (py_str (\<lambda>q. []) (CStr ''1.500,00''))) = NaN
   \<and> (\<exists>ob. make_observation (\<lambda>q. [])
          (mk_row (CStr ''Entrada'') (CStr ''Vendas'') (CStr '' Produtos '')
             [(''Jan/24'', CStr ''1.500,00''), (''Fev/24'', CInt 2000)]) ''Jan/24'' = Inr ob
        \<and> Data ob = ''2024-01-01'' \<and> Valor ob = Finite 0)
   \<and> (\<exists>out. transform_data (\<lambda>q. []) (scenario (CInt 2000)) = Inr out \<and> length out = 2
        \<and> (\<exists>ob \<in> set out. Data ob = ''2024-01-01'' \<and> Valor ob = Finite 0))"
proof -
  let ?r = "mk_row (CStr ''Entrada'') (CStr ''Vendas'') (CStr '' Produtos '')
             [(''Jan/24'', CStr ''1.500,00''), (''Fev/24'', CInt 2000)]"
  let ?df = "scenario (CInt 2000)"
  have c: "?r ''Jan/24'' = CStr ''1.500,00''"
    by (simp add: mk_row_def)
  have n: "to_numeric (replace_comma (py_str (\<lambda>q. []) (?r ''Jan/24''))) = NaN"
    unfolding c by (simp add: str_defs num_defs)
  have h: "header_ok ''Jan/24'' \<and> is_str (?r ''Categoria'')"
    by (simp add: str_defs run_defs)
  have d: "\<And>ob. make_observation (\<lambda>q. []) ?r ''Jan/24'' = Inr ob \<Longrightarrow> Data ob = ''2024-01-01''"
    by (auto simp: str_defs num_defs run_defs)
  have v: "validate_input_data ?df = Inr True \<and> list_all header_ok (date_columns ?df)
      \<and> list_all (\<lambda>r. is_str (r ''Categoria'')) (rows ?df)
      \<and> ?r \<in> set (rows ?df) \<and> ''Jan/24'' \<in> set (date_columns ?df)"
    by (simp add: str_defs run_defs)
  have s: "length (rows ?df) * length (date_columns ?df) = 2"
    by (simp add: run_defs)
  note z = zero_fill [of "\<lambda>q. []" ?r "''Jan/24''"]
  from z n h have "\<exists>ob. make_observation (\<lambda>q. []) ?r ''Jan/24'' = Inr ob \<and> Valor ob = Finite 0"
    by blast
  with d have 1: "\<exists>ob. make_observation (\<lambda>q. []) ?r ''Jan/24'' = Inr ob
      \<and> Data ob = ''2024-01-01'' \<and> Valor ob = Finite 0"
    by blast
  from z n v have "\<exists>out. transform_data (\<lambda>q. []) ?df = Inr out
      \<and> length out = length (rows ?df) * length (date_columns ?df)
      \<and> (\<exists>ob \<in> set out. make_observation (\<lambda>q. []) ?r ''Jan/24'' = Inr ob \<and> Valor ob = Finite 0)"
    by blast
  with d s have 2: "\<exists>out. transform_data (\<lambda>q. []) ?df = Inr out \<and> length out = 2
      \<and> (\<exists>ob \<in> set out. Data ob = ''2024-01-01'' \<and> Valor ob = Finite 0)"
    by metis
  from n 1 2 show ?thesis
    unfolding c by blast
qed

subsection \<open>The range of \<^verbatim>\<open>Valor\<close>\<close>

lemma to_numeric_infinite:
  assumes "to_numeric s = PosInf \<or> to_numeric s = NegInf"
  shows "s \<noteq> [] \<and> xstrtod (c_string s) = None"
proof -
  from assms have s: "s \<noteq> []"
    by (auto simp: to_numeric_def)
  have "xstrtod (c_string s) = None"
  proof (cases "xstrtod (c_string s)")
    case None
    then show ?thesis .
  next
    case (Some bx)
    obtain b x where bx: "bx = (b, x)"
      by (cases bx)
    from xstrtod_finite [of "c_string s" b x] Some bx obtain v where v: "x = Finite v"
      by blast
    from s Some bx v have "to_numeric s = NaN \<or> to_numeric s = Finite v
        \<or> (\<exists>i. - (2 ^ 63) \<le> i \<and> i < 2 ^ 64 \<and> to_numeric s = to_float (of_int i))"
      by (auto simp: to_numeric_def Let_def split: sum.splits)
    with assms show ?thesis
      by (auto simp: to_float_int64)
  qed
  with s show ?thesis ..
qed

lemma to_numeric_PosInf_iff:
  "to_numeric s = PosInf \<longleftrightarrow>
     s \<noteq> [] \<and> xstrtod (c_string s) = None
     \<and> map lower_ascii (c_string s) \<in> set [''inf'', ''+inf'', ''infinity'', ''+infinity'']"
proof
  assume p: "to_numeric s = PosInf"
  then have "s \<noteq> [] \<and> xstrtod (c_string s) = None"
    using to_numeric_infinite by blast
  with p show "s \<noteq> [] \<and> xstrtod (c_string s) = None
     \<and> map lower_ascii (c_string s) \<in> set [''inf'', ''+inf'', ''infinity'', ''+infinity'']"
    by (auto simp: to_numeric_def Let_def split: if_splits)
next
  assume "s \<noteq> [] \<and> xstrtod (c_string s) = None
     \<and> map lower_ascii (c_string s) \<in> set [''inf'', ''+inf'', ''infinity'', ''+infinity'']"
  then show "to_numeric s = PosInf"
    by (simp add: to_numeric_def Let_def)
qed

lemma to_numeric_NegInf_iff:
  "to_numeric s = NegInf \<longleftrightarrow>
     s \<noteq> [] \<and> xstrtod (c_string s) = None
     \<and> map lower_ascii (c_string s) \<in> set [''-inf'', ''-infinity'']"
proof
  assume p: "to_numeric s = NegInf"
  then have "s \<noteq> [] \<and> xstrtod (c_string s) = None"
    using to_numeric_infinite by blast
  with p show "s \<noteq> [] \<and> xstrtod (c_string s) = None
     \<and> map lower_ascii (c_string s) \<in> set [''-inf'', ''-infinity'']"
    by (auto simp: to_numeric_def Let_def split: if_splits)
next
  assume a: "s \<noteq> [] \<and> xstrtod (c_string s) = None
     \<and> map lower_ascii (c_string s) \<in> set [''-inf'', ''-infinity'']"
  then have "map lower_ascii (c_string s) \<notin> set [''inf'', ''+inf'', ''infinity'', ''+infinity'']"
    by auto
  with a show "to_numeric s = NegInf"
    by (simp add: to_numeric_def Let_def)
qed

lemma valor_range:
  assumes "valor fr c = Finite q"
  shows "\<bar>q\<bar> \<le> 2 ^ 1024 - 2 ^ 971" and "\<exists>k. q = dbl (of_int k / 100)"
proof -
  have "\<bar>q\<bar> \<le> 2 ^ 1024 - 2 ^ 971 \<and> (\<exists>k. q = dbl (of_int k / 100))"
  proof (cases "to_numeric (replace_comma (py_str fr c))")
    case (Finite x)
    from valor_Finite [OF Finite] assms show ?thesis
      by auto
  next
    case PosInf
    then have "valor fr c = PosInf"
      by (simp add: valor_cases(2))
    with assms show ?thesis
      by simp
  next
    case NegInf
    then have "valor fr c = NegInf"
      by (simp add: valor_cases(3))
    with assms show ?thesis
      by simp
  next
    case NaN
    with assms have "q = 0"
      by (simp add: valor_zero)
    moreover have "(0::rat) = dbl (of_int 0 / 100)"
      by simp
    ultimately show ?thesis
      by (intro conjI exI [of _ 0]) simp_all
  qed
  then show "\<bar>q\<bar> \<le> 2 ^ 1024 - 2 ^ 971" and "\<exists>k. q = dbl (of_int k / 100)"
    by simp_all
qed

lemma inf_table_run:
  "transform_data fr (one_cell ''Jan/24'' (CStr ''Produtos'') (CStr ''inf'')) =
     Inr [\<lparr>Data = ''2024-01-01'', Ano = 2024, Mes = 1, Mes_Nome = ''Janeiro'',
            Tipo = CStr ''Entrada'', Grupo = CStr ''Vendas'', Categoria = ''Produtos'',
            Valor = PosInf\<rparr>]"
  by (simp add: str_defs num_defs run_defs)

text \<open>
  Claim C9, amended. For every Observation, from any cell content whatsoever, the
  \<^verbatim>\<open>Valor\<close> is never null and never NaN, and a cell that is no number or is missing
  gives exactly 0.00. It is not always finite: it is an infinity exactly when the text
  of the cell, after the commas are replaced, is no number for the parser and spells
  \<^verbatim>\<open>inf\<close> or \<^verbatim>\<open>infinity\<close>, with or without a sign, in any case of its letters;
  \<^verbatim>\<open>pd.notnull\<close> lets an infinity through and \<^verbatim>\<open>round\<close> returns it unchanged. No
  numeral gives an infinity: the parser fails where its double would overflow, and
  then the \<^verbatim>\<open>Valor\<close> is 0.00 (\<^verbatim>\<open>1e309\<close> is such a text). Every finite \<^verbatim>\<open>Valor\<close> is
  a double in the range of the doubles, the one nearest to a multiple of 0.01: the
  number read, rounded to two decimals. No record is dropped for its cell: the loop
  body gives every record the \<^verbatim>\<open>Valor\<close> of its cell, and on a table that passes
  validation, has a row, and whose headers parse and whose categories are strings, the
  run returns one record for each cell of a date column, with the \<^verbatim>\<open>Valor\<close> of that
  cell.
\<close>

theorem valor_never_null:
  "valor fr c \<noteq> NaN
   \<and> (to_numeric (replace_comma (py_str fr c)) = NaN \<longrightarrow> valor fr c = Finite 0)
   \<and> ((valor fr c = PosInf \<or> valor fr c = NegInf) \<longleftrightarrow>
        replace_comma (py_str fr c) \<noteq> [] \<and> xstrtod (c_string (replace_comma (py_str fr c))) = None
        \<and> map lower_ascii (c_string (replace_comma (py_str fr c)))
             \<in> set [''inf'', ''+inf'', ''infinity'', ''+infinity'', ''-inf'', ''-infinity''])
   \<and> (\<forall>x. to_numeric (replace_comma (py_str fr c)) = Finite x \<longrightarrow>
         \<bar>x\<bar> \<le> 2 ^ 1024 - 2 ^ 971
         \<and> valor fr c = Finite (dbl (of_int (round_half_even (x * 100)) / 100)))
   \<and> (\<forall>q. valor fr c = Finite q \<longrightarrow>
         \<bar>q\<bar> \<le> 2 ^ 1024 - 2 ^ 971 \<and> (\<exists>k. q = dbl (of_int k / 100)))
   \<and> valor fr (CStr ''1e309'') = Finite 0
   \<and> (\<forall>r col ob. make_observation fr r col = Inr ob \<longrightarrow> Valor ob = valor fr (r col))
   \<and> (\<forall>df out ob. transform_data fr df = Inr out \<and> ob \<in> set out \<longrightarrow> Valor ob \<noteq> NaN)
   \<and> (\<forall>df. validate_input_data df = Inr True \<and> rows df \<noteq> []
             \<and> list_all header_ok (date_columns df)
             \<and> list_all (\<lambda>r. is_str (r ''Categoria'')) (rows df) \<longrightarrow>
         (\<exists>out. transform_data fr df = Inr out
            \<and> length out = length (rows df) * length (date_columns df)
            \<and> mset (map Inr out)
                = mset (concat (map (\<lambda>r. map (make_observation fr r) (date_columns df)) (rows df)))
            \<and> (\<forall>r \<in> set (rows df). \<forall>col \<in> set (date_columns df).
                 \<exists>ob \<in> set out. make_observation fr r col = Inr ob
                    \<and> Valor ob = valor fr (r col) \<and> Valor ob \<noteq> NaN)))"
proof (intro conjI allI impI)
  show "valor fr c \<noteq> NaN" by (rule valor_cases)
next
  assume "to_numeric (replace_comma (py_str fr c)) = NaN"
  then show "valor fr c = Finite 0" by (rule valor_zero)
next
  show "(valor fr c = PosInf \<or> valor fr c = NegInf) \<longleftrightarrow>
        replace_comma (py_str fr c) \<noteq> [] \<and> xstrtod (c_string (replace_comma (py_str fr c))) = None
        \<and> map lower_ascii (c_string (replace_comma (py_str fr c)))
             \<in> set [''inf'', ''+inf'', ''infinity'', ''+infinity'', ''-inf'', ''-infinity'']"
    unfolding valor_cases to_numeric_PosInf_iff to_numeric_NegInf_iff by auto
next
  fix x
  assume x: "to_numeric (replace_comma (py_str fr c)) = Finite x"
  then show "\<bar>x\<bar> \<le> 2 ^ 1024 - 2 ^ 971"
    by (rule to_numeric_bound)
  from x show "valor fr c = Finite (dbl (of_int (round_half_even (x * 100)) / 100))"
    by (rule valor_Finite)
next
  fix q
  assume q: "valor fr c = Finite q"
  then show "\<bar>q\<bar> \<le> 2 ^ 1024 - 2 ^ 971"
    by (rule valor_range)
  from q show "\<exists>k. q = dbl (of_int k / 100)"
    by (rule valor_range)
next
  show "valor fr (CStr ''1e309'') = Finite 0"
    by (simp add: str_defs num_defs)
next
  fix r col ob
  assume "make_observation fr r col = Inr ob"
  then show "Valor ob = valor fr (r col)" by (rule make_observation_valor)
next
  fix df out ob
  assume a: "transform_data fr df = Inr out \<and> ob \<in> set out"
  then obtain obs where "reshape fr (date_columns df) (rows df) = Inr obs" and "ob \<in> set obs"
    using transform_data_set by blast
  then obtain r col where "make_observation fr r col = Inr ob"
    using reshape_origin by blast
  then have "Valor ob = valor fr (r col)" by (rule make_observation_valor)
  then show "Valor ob \<noteq> NaN" by (simp add: valor_cases)
next
  fix df
  assume a: "validate_input_data df = Inr True \<and> rows df \<noteq> []
             \<and> list_all header_ok (date_columns df)
             \<and> list_all (\<lambda>r. is_str (r ''Categoria'')) (rows df)"
  then obtain out where t: "transform_data fr df = Inr out"
    and l: "length out = length (rows df) * length (date_columns df)"
    and m: "mset (map Inr out)
        = mset (concat (map (\<lambda>r. map (make_observation fr r) (date_columns df)) (rows df)))"
    and e: "\<forall>r \<in> set (rows df). \<forall>c \<in> set (date_columns df).
        \<exists>ob \<in> set out. make_observation fr r c = Inr ob \<and> Valor ob = valor fr (r c)"
    using transform_data_emits [of df fr] by blast
  from e have "\<forall>r \<in> set (rows df). \<forall>col \<in> set (date_columns df).
      \<exists>ob \<in> set out. make_observation fr r col = Inr ob
        \<and> Valor ob = valor fr (r col) \<and> Valor ob \<noteq> NaN"
    by (metis valor_cases(1))
  with t l m show "\<exists>out. transform_data fr df = Inr out
            \<and> length out = length (rows df) * length (date_columns df)
            \<and> mset (map Inr out)
                = mset (concat (map (\<lambda>r. map (make_observation fr r) (date_columns df)) (rows df)))
            \<and> (\<forall>r \<in> set (rows df). \<forall>col \<in> set (date_columns df).
                 \<exists>ob \<in> set out. make_observation fr r col = Inr ob
                    \<and> Valor ob = valor fr (r col) \<and> Valor ob \<noteq> NaN)"
    by blast
qed

text \<open>
  Claim C9 as stated fails: a table that passes validation, with the text \<^verbatim>\<open>inf\<close>
  in its one date cell, gives one Observation whose \<^verbatim>\<open>Valor\<close> is infinite.
\<close>

theorem valor_never_null_counterexample:
  "\<forall>fr. \<exists>out. transform_data fr (one_cell ''Jan/24'' (CStr ''Produtos'') (CStr ''inf'')) = Inr out
      \<and> map Valor out = [PosInf]"
  by (simp add: inf_table_run)

text \<open>
  The theorem on that table, whose run returns its one record with an infinite
  \<^verbatim>\<open>Valor\<close>, and on a missing cell.
\<close>

theorem valor_never_null_witness:
  "(\<exists>out. transform_data (\<lambda>q. []) (one_cell ''Jan/24'' (CStr ''Produtos'') (CStr ''inf'')) = Inr out
      \<and> length out = 1 \<and> Valor (out ! 0) \<noteq> NaN \<and> Valor (out ! 0) = PosInf)
   \<and> valor (\<lambda>q. []) (CStr ''inf'') = PosInf
   \<and> valor (\<lambda>q. []) (CFloat NaN) = Finite 0"
proof -
  let ?df = "one_cell ''Jan/24'' (CStr ''Produtos'') (CStr ''inf'')"
  let ?r = "mk_row (CStr ''Entrada'') (CStr ''Vendas'') (CStr ''Produtos'') [(''Jan/24'', CStr ''inf'')]"
  have v: "validate_input_data ?df = Inr True \<and> rows ?df \<noteq> []
      \<and> list_all header_ok (date_columns ?df)
      \<and> list_all (\<lambda>r. is_str (r ''Categoria'')) (rows ?df)"
    by (simp add: str_defs run_defs)
  have s: "length (rows ?df) * length (date_columns ?df) = 1"
    and rs: "rows ?df = [?r]" and cs: "date_columns ?df = [''Jan/24'']"
    and cell: "?r ''Jan/24'' = CStr ''inf''"
    by (simp_all add: run_defs)
  have n: "to_numeric (replace_comma (py_str (\<lambda>q. []) (CFloat NaN))) = NaN"
    by (simp add: str_defs num_defs)
  have i: "replace_comma (py_str (\<lambda>q. []) (CStr ''inf'')) \<noteq> []
      \<and> xstrtod (c_string (replace_comma (py_str (\<lambda>q. []) (CStr ''inf'')))) = None
      \<and> map lower_ascii (c_string (replace_comma (py_str (\<lambda>q. []) (CStr ''inf''))))
           \<in> set [''inf'', ''+inf'', ''infinity'', ''+infinity'', ''-inf'', ''-infinity'']"
    by (simp add: str_defs num_defs)
  have p: "valor (\<lambda>q. []) (CStr ''inf'') \<noteq> NegInf"
    by (simp add: str_defs num_defs)
  from valor_never_null [of "\<lambda>q. []" "CFloat NaN"] n
  have z: "valor (\<lambda>q. []) (CFloat NaN) = Finite 0"
    by blast
  from valor_never_null [of "\<lambda>q. []" "CStr ''inf''"] i
  have "valor (\<lambda>q. []) (CStr ''inf'') = PosInf \<or> valor (\<lambda>q. []) (CStr ''inf'') = NegInf"
    by blast
  with p have inf: "valor (\<lambda>q. []) (CStr ''inf'') = PosInf"
    by simp
  from valor_never_null [of "\<lambda>q. []" "CFloat NaN"] v
  obtain out where t: "transform_data (\<lambda>q. []) ?df = Inr out"
    and l: "length out = length (rows ?df) * length (date_columns ?df)"
    and e: "\<forall>r \<in> set (rows ?df). \<forall>col \<in> set (date_columns ?df).
        \<exists>ob \<in> set out. make_observation (\<lambda>q. []) r col = Inr ob
          \<and> Valor ob = valor (\<lambda>q. []) (r col) \<and> Valor ob \<noteq> NaN"
    by blast
  from l s have l1: "length out = 1"
    by simp
  then obtain ob where o: "out = [ob]"
    by (cases out) auto
  from e have "\<exists>ob \<in> set out. Valor ob = valor (\<lambda>q. []) (?r ''Jan/24'') \<and> Valor ob \<noteq> NaN"
    unfolding rs cs by auto
  with o inf have "Valor (out ! 0) \<noteq> NaN \<and> Valor (out ! 0) = PosInf"
    unfolding cell by simp
  with t l1 inf z show ?thesis
    by blast
qed

subsection \<open>Validation\<close>

lemma validate_rows: "validate_input_data (df\<lparr>rows := rs\<rparr>) = validate_input_data df"
  by (simp add: validate_input_data_def missing_columns_def date_columns_def)

lemma transform_data_invalid:
  "validate_input_data df = Inl e \<Longrightarrow> transform_data fr df = Inl e"
  by (simp add: transform_data_def)

lemma missing_columns_empty_iff:
  "missing_columns df = [] \<longleftrightarrow> set required_columns \<subseteq> set (columns df)"
  unfolding missing_columns_def filter_empty_conv by blast

text \<open>
  Claim C7. For every input table that lacks one or more of the three identifying
  columns (\<^verbatim>\<open>Tipo\<close>, \<^verbatim>\<open>Grupo\<close>, \<^verbatim>\<open>Categoria\<close>), validation fails, before any
  transformation, with the error of the schema (a \<^verbatim>\<open>ValueError\<close> in the code) whose
  message lists exactly the missing names, in the order of the required ones; the run
  ends with that error and produces no Observation; a table that lacks only
  \<^verbatim>\<open>Categoria\<close> is told \<^verbatim>\<open>Categoria\<close>. The message is spelled out for
  each of the seven sets of missing columns: \<^verbatim>\<open>Missing required columns: \<close> and the
  list as Python prints it, every name between two apostrophes (the character 0x27),
  the names separated by a comma and a space.
\<close>

theorem missing_columns_rejected:
  assumes "\<not> set required_columns \<subseteq> set (columns df)"
  shows "validate_input_data df
           = Inl (ValueError (''Missing required columns: '' @ repr_list (missing_columns df)))
       \<and> transform_data fr df
           = Inl (ValueError (''Missing required columns: '' @ repr_list (missing_columns df)))
       \<and> missing_columns df = filter (\<lambda>c. c \<notin> set (columns df)) [''Tipo'', ''Grupo'', ''Categoria'']
       \<and> (''Tipo'' \<in> set (columns df) \<and> ''Grupo'' \<in> set (columns df) \<longrightarrow>
            validate_input_data df
              = Inl (ValueError (''Missing required columns: ['' @ [CHR 0x27] @ ''Categoria''
                                   @ [CHR 0x27] @ '']'')))
       \<and> transform_data fr df
           = Inl (ValueError (''Missing required columns: ['' @
               (if ''Tipo'' \<in> set (columns df) then
                  (if ''Grupo'' \<in> set (columns df) then
                     [CHR 0x27] @ ''Categoria'' @ [CHR 0x27]
                   else if ''Categoria'' \<in> set (columns df) then
                     [CHR 0x27] @ ''Grupo'' @ [CHR 0x27]
                   else
                     [CHR 0x27] @ ''Grupo'' @ [CHR 0x27] @ '', '' @
                     [CHR 0x27] @ ''Categoria'' @ [CHR 0x27])
                else if ''Grupo'' \<in> set (columns df) then
                  (if ''Categoria'' \<in> set (columns df) then
                     [CHR 0x27] @ ''Tipo'' @ [CHR 0x27]
                   else
                     [CHR 0x27] @ ''Tipo'' @ [CHR 0x27] @ '', '' @
                     [CHR 0x27] @ ''Categoria'' @ [CHR 0x27])
                else if ''Categoria'' \<in> set (columns df) then
                  [CHR 0x27] @ ''Tipo'' @ [CHR 0x27] @ '', '' @
                  [CHR 0x27] @ ''Grupo'' @ [CHR 0x27]
                else
                  [CHR 0x27] @ ''Tipo'' @ [CHR 0x27] @ '', '' @
                  [CHR 0x27] @ ''Grupo'' @ [CHR 0x27] @ '', '' @
                  [CHR 0x27] @ ''Categoria'' @ [CHR 0x27])
               @ '']''))"
proof (intro conjI impI)
  from assms have m: "missing_columns df \<noteq> []"
    by (simp add: missing_columns_empty_iff)
  then show v: "validate_input_data df
      = Inl (ValueError (''Missing required columns: '' @ repr_list (missing_columns df)))"
    by (simp add: validate_input_data_def)
  then show t: "transform_data fr df
      = Inl (ValueError (''Missing required columns: '' @ repr_list (missing_columns df)))"
    by (rule transform_data_invalid)
  show l: "missing_columns df = filter (\<lambda>c. c \<notin> set (columns df)) [''Tipo'', ''Grupo'', ''Categoria'']"
    by (simp only: missing_columns_def required_columns_def)
  {
    assume "''Tipo'' \<in> set (columns df) \<and> ''Grupo'' \<in> set (columns df)"
    with m have "missing_columns df = [''Categoria'']"
      unfolding l by (simp split: if_splits)
    then have "repr_list (missing_columns df) = ''['' @ [CHR 0x27] @ ''Categoria'' @ [CHR 0x27] @ '']''"
      by (simp add: repr_list_def repr_str_def)
    with v show "validate_input_data df
        = Inl (ValueError (''Missing required columns: ['' @ [CHR 0x27] @ ''Categoria''
                             @ [CHR 0x27] @ '']''))"
      by simp
  }
  have n: "\<not> (''Tipo'' \<in> set (columns df) \<and> ''Grupo'' \<in> set (columns df)
      \<and> ''Categoria'' \<in> set (columns df))"
  proof
    assume "''Tipo'' \<in> set (columns df) \<and> ''Grupo'' \<in> set (columns df)
      \<and> ''Categoria'' \<in> set (columns df)"
    then have "missing_columns df = []"
      unfolding l by simp
    with m show False
      by simp
  qed
  show "transform_data fr df
           = Inl (ValueError (''Missing required columns: ['' @
               (if ''Tipo'' \<in> set (columns df) then
                  (if ''Grupo'' \<in> set (columns df) then
                     [CHR 0x27] @ ''Categoria'' @ [CHR 0x27]
                   else if ''Categoria'' \<in> set (columns df) then
                     [CHR 0x27] @ ''Grupo'' @ [CHR 0x27]
                   else
                     [CHR 0x27] @ ''Grupo'' @ [CHR 0x27] @ '', '' @
                     [CHR 0x27] @ ''Categoria'' @ [CHR 0x27])
                else if ''Grupo'' \<in> set (columns df) then
                  (if ''Categoria'' \<in> set (columns df) then
                     [CHR 0x27] @ ''Tipo'' @ [CHR 0x27]
                   else
                     [CHR 0x27] @ ''Tipo'' @ [CHR 0x27] @ '', '' @
                     [CHR 0x27] @ ''Categoria'' @ [CHR 0x27])
                else if ''Categoria'' \<in> set (columns df) then
                  [CHR 0x27] @ ''Tipo'' @ [CHR 0x27] @ '', '' @
                  [CHR 0x27] @ ''Grupo'' @ [CHR 0x27]
                else
                  [CHR 0x27] @ ''Tipo'' @ [CHR 0x27] @ '', '' @
                  [CHR 0x27] @ ''Grupo'' @ [CHR 0x27] @ '', '' @
                  [CHR 0x27] @ ''Categoria'' @ [CHR 0x27])
               @ '']''))"
    unfolding t l using n by (simp add: repr_list_def repr_str_def)
qed

text \<open>
  A table without \<^verbatim>\<open>Tipo\<close>, one without \<^verbatim>\<open>Categoria\<close>, one without \<^verbatim>\<open>Tipo\<close> and
  \<^verbatim>\<open>Categoria\<close>, and one with none of the three.
\<close>

theorem missing_columns_rejected_witness:
  "transform_data (\<lambda>q. []) \<lparr>columns = [''Grupo'', ''Categoria'', ''Jan/24''], rows = []\<rparr>
       = Inl (ValueError (''Missing required columns: ['' @ [CHR 0x27] @ ''Tipo''
                            @ [CHR 0x27] @ '']''))
   \<and> transform_data (\<lambda>q. []) \<lparr>columns = [''Tipo'', ''Grupo'', ''Jan/24''], rows = []\<rparr>
       = Inl (ValueError (''Missing required columns: ['' @ [CHR 0x27] @ ''Categoria''
                            @ [CHR 0x27] @ '']''))
   \<and> transform_data (\<lambda>q. []) \<lparr>columns = [''Grupo'', ''Jan/24''], rows = []\<rparr>
       = Inl (ValueError (''Missing required columns: ['' @ [CHR 0x27] @ ''Tipo'' @ [CHR 0x27]
                            @ '', '' @ [CHR 0x27] @ ''Categoria'' @ [CHR 0x27] @ '']''))
   \<and> transform_data (\<lambda>q. []) \<lparr>columns = [''Jan/24''], rows = []\<rparr>
       = Inl (ValueError (''Missing required columns: ['' @ [CHR 0x27] @ ''Tipo'' @ [CHR 0x27]
                            @ '', '' @ [CHR 0x27] @ ''Grupo'' @ [CHR 0x27]
                            @ '', '' @ [CHR 0x27] @ ''Categoria'' @ [CHR 0x27] @ '']''))
   \<and> missing_columns \<lparr>columns = [''Grupo'', ''Jan/24''], rows = []\<rparr> = [''Tipo'', ''Categoria'']"
proof -
  let ?a = "\<lparr>columns = [''Grupo'', ''Categoria'', ''Jan/24''], rows = []\<rparr>"
  let ?b = "\<lparr>columns = [''Tipo'', ''Grupo'', ''Jan/24''], rows = []\<rparr>"
  let ?c = "\<lparr>columns = [''Grupo'', ''Jan/24''], rows = []\<rparr>"
  let ?d = "\<lparr>columns = [''Jan/24''], rows = []\<rparr>"
  have a: "\<not> set required_columns \<subseteq> set (columns ?a)"
    and b: "\<not> set required_columns \<subseteq> set (columns ?b)"
    and c: "\<not> set required_columns \<subseteq> set (columns ?c)"
    and d: "\<not> set required_columns \<subseteq> set (columns ?d)"
    by (simp_all add: required_columns_def)
  from missing_columns_rejected [OF a, of "\<lambda>q. []"] have 1:
    "transform_data (\<lambda>q. []) ?a
       = Inl (ValueError (''Missing required columns: ['' @ [CHR 0x27] @ ''Tipo''
                            @ [CHR 0x27] @ '']''))"
    by (simp add: repr_list_def repr_str_def)
  from missing_columns_rejected [OF b, of "\<lambda>q. []"] have 2:
    "transform_data (\<lambda>q. []) ?b
       = Inl (ValueError (''Missing required columns: ['' @ [CHR 0x27] @ ''Categoria''
                            @ [CHR 0x27] @ '']''))"
    by (simp add: repr_list_def repr_str_def)
  from missing_columns_rejected [OF c, of "\<lambda>q. []"] have 3:
    "transform_data (\<lambda>q. []) ?c
       = Inl (ValueError (''Missing required columns: ['' @ [CHR 0x27] @ ''Tipo'' @ [CHR 0x27]
                            @ '', '' @ [CHR 0x27] @ ''Categoria'' @ [CHR 0x27] @ '']''))"
    and 5: "missing_columns ?c = [''Tipo'', ''Categoria'']"
    by (simp_all add: repr_list_def repr_str_def)
  from missing_columns_rejected [OF d, of "\<lambda>q. []"] have 4:
    "transform_data (\<lambda>q. []) ?d
       = Inl (ValueError (''Missing required columns: ['' @ [CHR 0x27] @ ''Tipo'' @ [CHR 0x27]
                            @ '', '' @ [CHR 0x27] @ ''Grupo'' @ [CHR 0x27]
                            @ '', '' @ [CHR 0x27] @ ''Categoria'' @ [CHR 0x27] @ '']''))"
    by (simp add: repr_list_def repr_str_def)
  from 1 2 3 4 5 show ?thesis
    by (intro conjI)
qed

text \<open>
  Claim C8. For every input table that has the three identifying columns and in which
  no column other than \<^verbatim>\<open>Total\<close> contains \<^verbatim>\<open>/\<close>, validation fails with the message
  that no date columns were found, and so does the run; \<^verbatim>\<open>Total\<close> is never a date
  column of any table.
\<close>

theorem no_date_columns_rejected:
  assumes "set required_columns \<subseteq> set (columns df)"
    and "\<forall>c \<in> set (columns df). c \<noteq> ''Total'' \<longrightarrow> CHR ''/'' \<notin> set c"
  shows "validate_input_data df
           = Inl (ValueError (''No date columns found in the format '' @ [CHR 0x27] @ ''MMM/YY''
                                @ [CHR 0x27]))
       \<and> transform_data fr df
           = Inl (ValueError (''No date columns found in the format '' @ [CHR 0x27] @ ''MMM/YY''
                                @ [CHR 0x27]))
       \<and> ''Total'' \<notin> set (date_columns df')"
proof (intro conjI)
  from assms(1) have m: "missing_columns df = []"
    by (simp add: missing_columns_empty_iff)
  from assms(2) have d: "date_columns df = []"
    unfolding date_columns_def filter_empty_conv by blast
  from m d show v: "validate_input_data df
           = Inl (ValueError (''No date columns found in the format '' @ [CHR 0x27] @ ''MMM/YY''
                                @ [CHR 0x27]))"
    by (simp add: validate_input_data_def no_date_columns_message_def)
  then show "transform_data fr df
           = Inl (ValueError (''No date columns found in the format '' @ [CHR 0x27] @ ''MMM/YY''
                                @ [CHR 0x27]))"
    by (rule transform_data_invalid)
  show "''Total'' \<notin> set (date_columns df')"
    by (simp add: date_columns_def)
qed

text \<open>The identifying columns with \<^verbatim>\<open>Total\<close>; and \<^verbatim>\<open>Total\<close> beside a date column.\<close>

theorem no_date_columns_rejected_witness:
  "set required_columns \<subseteq> set (columns \<lparr>columns = [''Tipo'', ''Grupo'', ''Categoria'', ''Total''], rows = []\<rparr>)
   \<and> validate_input_data \<lparr>columns = [''Tipo'', ''Grupo'', ''Categoria'', ''Total''], rows = []\<rparr>
       = Inl (ValueError (''No date columns found in the format '' @ [CHR 0x27] @ ''MMM/YY''
                            @ [CHR 0x27]))
   \<and> date_columns \<lparr>columns = [''Tipo'', ''Grupo'', ''Categoria'', ''Total'', ''Jan/24''], rows = []\<rparr>
       = [''Jan/24'']"
proof -
  let ?df = "\<lparr>columns = [''Tipo'', ''Grupo'', ''Categoria'', ''Total''], rows = []\<rparr>"
  have a: "set required_columns \<subseteq> set (columns ?df)"
    by (simp add: required_columns_def)
  have b: "\<forall>c \<in> set (columns ?df). c \<noteq> ''Total'' \<longrightarrow> CHR ''/'' \<notin> set c"
    by simp
  have c: "date_columns \<lparr>columns = [''Tipo'', ''Grupo'', ''Categoria'', ''Total'', ''Jan/24''], rows = []\<rparr>
       = [''Jan/24'']"
    by (simp add: date_columns_def)
  from no_date_columns_rejected [OF a b, of "\<lambda>q. []"]
  have "validate_input_data ?df
       = Inl (ValueError (''No date columns found in the format '' @ [CHR 0x27] @ ''MMM/YY''
                            @ [CHR 0x27]))"
    by (rule conjunct1)
  with a c show ?thesis
    by (simp only: simp_thms)
qed

subsection \<open>Validation and the cells\<close>

lemma py_int_error: "py_int s = Inl e \<Longrightarrow> e = int_error"
  by (auto simp: py_int_def Let_def split: prod.splits list.splits option.splits if_splits)

lemma parse_date_column_error: "parse_date_column c = Inl e \<Longrightarrow> \<exists>msg. e = ValueError msg"
  by (auto simp: parse_date_column_def Let_def int_error_def dest!: py_int_error
      split: list.splits sum.splits)

lemma make_observation_attribute_error:
  "make_observation fr r c = Inl AttributeError \<Longrightarrow> \<not> is_str (r ''Categoria'')"
  by (auto simp: make_observation_def is_str_def dest!: parse_date_column_error
      split: sum.splits option.splits prod.splits cell.splits)

lemma row_observations_attribute_error:
  "row_observations fr r cs = Inl AttributeError \<Longrightarrow> \<not> is_str (r ''Categoria'')"
  by (induction cs) (auto split: sum.splits dest: make_observation_attribute_error)

lemma reshape_attribute_error:
  "reshape fr cols rs = Inl AttributeError \<Longrightarrow> \<not> list_all (\<lambda>r. is_str (r ''Categoria'')) rs"
  by (induction rs) (auto split: sum.splits dest: row_observations_attribute_error)

lemma transform_data_attribute_error:
  assumes "transform_data fr df = Inl AttributeError"
  shows "\<not> list_all (\<lambda>r. is_str (r ''Categoria'')) (rows df)"
proof -
  from assms have "reshape fr (date_columns df) (rows df) = Inl AttributeError"
    by (auto simp: transform_data_def validate_input_data_def sort_values_def
        split: sum.splits if_splits)
  then show ?thesis by (rule reshape_attribute_error)
qed

text \<open>
  Claim C10. Validation does not read the cells: it gives the same answer whatever the
  rows are. So passing validation does not make the reshape succeed: on a table that
  passes validation and has a row whose \<^verbatim>\<open>Categoria\<close> cell is no string, the run
  raises; when the cell is missing (NaN) and the headers of the date columns parse,
  the error is the \<^verbatim>\<open>AttributeError\<close> of \<^verbatim>\<open>.strip()\<close>, and no Observation with an
  empty category is emitted. When every \<^verbatim>\<open>Categoria\<close> cell is a string, the run never
  ends with that error.
\<close>

theorem validation_ignores_cells:
  "validate_input_data (df\<lparr>rows := rs\<rparr>) = validate_input_data df
   \<and> (validate_input_data df = Inr True \<and> \<not> list_all (\<lambda>r. is_str (r ''Categoria'')) (rows df) \<longrightarrow>
        (\<exists>e. transform_data fr df = Inl e))
   \<and> (validate_input_data df = Inr True \<and> list_all header_ok (date_columns df)
        \<and> (\<exists>r \<in> set (rows df). r ''Categoria'' = CFloat NaN) \<longrightarrow>
        transform_data fr df = Inl AttributeError)
   \<and> (list_all (\<lambda>r. is_str (r ''Categoria'')) (rows df) \<longrightarrow> transform_data fr df \<noteq> Inl AttributeError)"
proof (intro conjI impI)
  show "validate_input_data (df\<lparr>rows := rs\<rparr>) = validate_input_data df"
    by (rule validate_rows)
next
  assume a: "validate_input_data df = Inr True \<and> \<not> list_all (\<lambda>r. is_str (r ''Categoria'')) (rows df)"
  have "\<not> (\<exists>out. transform_data fr df = Inr out)"
    using a by (simp add: transform_data_succeeds_iff)
  then show "\<exists>e. transform_data fr df = Inl e"
    by (cases "transform_data fr df") auto
next
  assume a: "validate_input_data df = Inr True \<and> list_all header_ok (date_columns df)
        \<and> (\<exists>r \<in> set (rows df). r ''Categoria'' = CFloat NaN)"
  then obtain r where "r \<in> set (rows df)" and "\<not> is_str (r ''Categoria'')"
    by (auto simp: is_str_def)
  then have "\<not> list_all (\<lambda>r. is_str (r ''Categoria'')) (rows df)"
    unfolding list_all_iff by blast
  moreover from a have "date_columns df \<noteq> []"
    using validate_date_columns by blast
  ultimately have "reshape fr (date_columns df) (rows df) = Inl AttributeError"
    using a reshape_not_str by blast
  with a show "transform_data fr df = Inl AttributeError"
    by (simp add: transform_data_def)
next
  assume "list_all (\<lambda>r. is_str (r ''Categoria'')) (rows df)"
  then show "transform_data fr df \<noteq> Inl AttributeError"
    using transform_data_attribute_error by blast
qed

text \<open>A table whose \<^verbatim>\<open>Categoria\<close> cell is missing, and the scenario of the specification.\<close>

theorem validation_ignores_cells_witness:
  "validate_input_data (one_cell ''Jan/24'' (CFloat NaN) (CInt 10)) = Inr True
   \<and> transform_data (\<lambda>q. []) (one_cell ''Jan/24'' (CFloat NaN) (CInt 10)) = Inl AttributeError
   \<and> transform_data (\<lambda>q. []) (scenario (CInt 2000)) \<noteq> Inl AttributeError"
proof -
  let ?df = "one_cell ''Jan/24'' (CFloat NaN) (CInt 10)"
  have v: "validate_input_data ?df = Inr True"
    by (simp add: run_defs)
  have h: "list_all header_ok (date_columns ?df)"
    by (simp add: str_defs run_defs)
  have n: "\<exists>r \<in> set (rows ?df). r ''Categoria'' = CFloat NaN"
    by (simp add: run_defs)
  have s: "list_all (\<lambda>r. is_str (r ''Categoria'')) (rows (scenario (CInt 2000)))"
    by (simp add: run_defs)
  from validation_ignores_cells [where df = ?df and fr = "\<lambda>q. []"] v h n
  have 1: "transform_data (\<lambda>q. []) ?df = Inl AttributeError"
    by simp
  from validation_ignores_cells [where df = "scenario (CInt 2000)" and fr = "\<lambda>q. []"] s
  have 2: "transform_data (\<lambda>q. []) (scenario (CInt 2000)) \<noteq> Inl AttributeError"
    by simp
  from v 1 2 show ?thesis
    by simp
qed

subsection \<open>The date column parser\<close>

















lemma parse_date_column_unknown:
  assumes "split CHR ''/'' (strip col) = [m, y]" and "month_map (strip m) = None"
  shows "parse_date_column col = (case py_int y of Inl e \<Rightarrow> Inl e | Inr n \<Rightarrow> Inr (None, 2000 + n))"
  unfolding parse_date_column_def assms(1) by (simp add: assms(2))

lemma unknown_not_header_ok:
  assumes "split CHR ''/'' (strip col) = [m, y]" and "month_map (strip m) = None"
  shows "\<not> header_ok col"
  unfolding header_ok_def parse_date_column_unknown [OF assms] by (simp split: sum.splits)

text \<open>
  Claim C5, amended. For a date column whose name has one \<^verbatim>\<open>/\<close> and whose month
  token is none of the twelve known abbreviations, the parser does not raise on the
  dictionary miss: \<^verbatim>\<open>dict.get\<close> returns \<^verbatim>\<open>None\<close>, and the parser returns \<^verbatim>\<open>None\<close>
  with the year (it raises only when the year token is no integer). The condition does
  not pass silently all the same: the loop body raises for every row, with
  \<^verbatim>\<open>TypeError\<close> when it formats the month \<^verbatim>\<open>None\<close> as \<^verbatim>\<open>02d\<close>, and every run on a
  table with such a date column ends with an error.
\<close>

theorem unknown_month_aborts:
  assumes "split CHR ''/'' (strip col) = [m, y]" and "month_map (strip m) = None"
  shows "(\<forall>n. py_int y = Inr n \<longrightarrow> parse_date_column col = Inr (None, 2000 + n))
       \<and> (\<forall>e. py_int y = Inl e \<longrightarrow> parse_date_column col = Inl e)
       \<and> (\<forall>r n. py_int y = Inr n \<longrightarrow> make_observation fr r col = Inl TypeError)
       \<and> (\<forall>r. \<exists>e. make_observation fr r col = Inl e)
       \<and> (\<forall>df. col \<in> set (date_columns df) \<longrightarrow> (\<exists>e. transform_data fr df = Inl e))"
proof (intro conjI allI impI)
  note p = parse_date_column_unknown [OF assms]
  fix n
  assume "py_int y = Inr n"
  then show "parse_date_column col = Inr (None, 2000 + n)"
    by (simp add: p)
  then show "make_observation fr r col = Inl TypeError" for r
    by (simp add: make_observation_def)
next
  fix e
  assume "py_int y = Inl e"
  then show "parse_date_column col = Inl e"
    by (simp add: parse_date_column_unknown [OF assms])
next
  fix r
  have "\<not> (\<exists>ob. make_observation fr r col = Inr ob)"
    using make_observation_header unknown_not_header_ok [OF assms] by blast
  then show "\<exists>e. make_observation fr r col = Inl e"
    by (cases "make_observation fr r col") auto
next
  fix df
  assume "col \<in> set (date_columns df)"
  then have "\<not> list_all header_ok (date_columns df)"
    using unknown_not_header_ok [OF assms] unfolding list_all_iff by blast
  then have "\<not> (\<exists>out. transform_data fr df = Inr out)"
    by (simp add: transform_data_succeeds_iff)
  then show "\<exists>e. transform_data fr df = Inl e"
    by (cases "transform_data fr df") auto
qed

text \<open>
  Claim C5 as stated fails: on \<^verbatim>\<open>Foo/24\<close> the parser returns the pair of \<^verbatim>\<open>None\<close>
  and 2024; it does not raise.
\<close>

theorem unknown_month_aborts_counterexample:
  "parse_date_column ''Foo/24'' = Inr (None, 2024)"
  by (simp add: str_defs run_defs)

text \<open>The theorem on a table whose one date column is \<^verbatim>\<open>Foo/24\<close>.\<close>

theorem unknown_month_aborts_witness:
  "split CHR ''/'' (strip ''Foo/24'') = [''Foo'', ''24''] \<and> month_map (strip ''Foo'') = None
   \<and> py_int ''24'' = Inr 24
   \<and> make_observation (\<lambda>q. []) (mk_row (CStr ''Entrada'') (CStr ''Vendas'') (CStr ''Produtos'')
        [(''Foo/24'', CInt 10)]) ''Foo/24'' = Inl TypeError
   \<and> ''Foo/24'' \<in> set (date_columns (one_cell ''Foo/24'' (CStr ''Produtos'') (CInt 10)))
   \<and> (\<exists>e. transform_data (\<lambda>q. []) (one_cell ''Foo/24'' (CStr ''Produtos'') (CInt 10)) = Inl e)"
proof -
  have s: "split CHR ''/'' (strip ''Foo/24'') = [''Foo'', ''24'']"
    by (simp add: str_defs)
  have m: "month_map (strip ''Foo'') = None"
    by (simp add: str_defs month_map_def)
  have y: "py_int ''24'' = Inr 24"
    by (simp add: str_defs)
  have d: "''Foo/24'' \<in> set (date_columns (one_cell ''Foo/24'' (CStr ''Produtos'') (CInt 10)))"
    by (simp add: one_cell_def date_columns_def)
  note t = unknown_month_aborts [OF s m, of "\<lambda>q. []"]
  from t y have "make_observation (\<lambda>q. []) (mk_row (CStr ''Entrada'') (CStr ''Vendas'') (CStr ''Produtos'')
        [(''Foo/24'', CInt 10)]) ''Foo/24'' = Inl TypeError"
    by blast
  moreover from t d
  have "\<exists>e. transform_data (\<lambda>q. []) (one_cell ''Foo/24'' (CStr ''Produtos'') (CInt 10)) = Inl e"
    by blast
  ultimately show ?thesis
    using s m y d by simp
qed

end
